theory Spec2Isabelle
  imports Complex_Main "HOL-Library.AList"
begin

section \<open>StableClustering: stability selection of the number of clusters\<close>

text \<open>
  A shallow embedding of \<^verbatim>\<open>imodels/clustering/stableclustering.py\<close>. The class
  \<^verbatim>\<open>StableClustering\<close> becomes a record, its methods become functions that take the
  object and return the updated one, every \<^verbatim>\<open>raise\<close> becomes a value of the type
  \<open>error\<close>, and each \<^verbatim>\<open>for\<close> loop becomes a recursion over the list the loop
  iterates. The library calls the class makes (scikit-learn's \<^verbatim>\<open>KMeans\<close>,
  \<^verbatim>\<open>rand_score\<close>, \<^verbatim>\<open>adjusted_rand_score\<close>, numpy's \<^verbatim>\<open>mean\<close>) are
  not part of the repository: they are the fields of a record of functions that every
  operation takes as its first argument.
\<close>

subsection \<open>Values\<close>

text \<open>
  A Python float: a finite value, an infinity, or not-a-number. The only operation the
  class itself applies to a float is the comparison \<^verbatim>\<open>avg_score > best_score\<close>,
  which is false as soon as one side is not-a-number.
\<close>

datatype pyfloat = NaN | NegInf | Finite real | PosInf

fun py_gt :: "pyfloat \<Rightarrow> pyfloat \<Rightarrow> bool" where
  "py_gt (Finite a) (Finite b) = (b < a)"
| "py_gt PosInf (Finite b) = True"
| "py_gt PosInf NegInf = True"
| "py_gt (Finite a) NegInf = True"
| "py_gt _ _ = False"

text \<open>
  The exceptions that can leave \<^verbatim>\<open>fit\<close> and \<^verbatim>\<open>predict\<close>. The first two are
  the \<^verbatim>\<open>ValueError\<close>s of lines 39 and 51, told apart by their message; the next is
  raised by \<^verbatim>\<open>check_is_fitted\<close>; \<open>AttributeError\<close> is what Python raises for
  \<^verbatim>\<open>None.fit\<close> and \<^verbatim>\<open>None.predict\<close>, \<open>UnboundLocalError\<close> for reading the
  local \<^verbatim>\<open>model\<close> before any assignment, \<open>IndexError\<close> for a list index out of
  range; \<open>SklearnError\<close> stands for any exception raised inside a library call.
\<close>

datatype error =
    InvalidAlgorithm
  | InvalidMetric
  | NotFittedError
  | AttributeError
  | UnboundLocalError
  | IndexError
  | SklearnError string

subsection \<open>The library\<close>

text \<open>
  A dataset is the list of its rows. \<open>kmeans_fit k seed X\<close> is
  \<^verbatim>\<open>KMeans(n_clusters=k, random_state=seed).fit(X)\<close>: the fitted attributes, or the
  message of the exception the library raises (which reaches the caller of the class as
  \<open>SklearnError\<close>); \<open>kmeans_labels\<close> reads \<^verbatim>\<open>labels_\<close> from them and
  \<open>kmeans_predict\<close> is \<^verbatim>\<open>predict\<close>. \<open>mean_nonempty\<close> is \<^verbatim>\<open>np.mean\<close> on a
  list with at least one element.
\<close>

record ('p, 'f) sklearn =
  kmeans_fit :: "int \<Rightarrow> int \<Rightarrow> 'p list \<Rightarrow> string + 'f"
  kmeans_labels :: "'f \<Rightarrow> int list"
  kmeans_predict :: "'f \<Rightarrow> 'p list \<Rightarrow> string + int list"
  rand_score :: "int list \<Rightarrow> int list \<Rightarrow> pyfloat"
  adjusted_rand_score :: "int list \<Rightarrow> int list \<Rightarrow> pyfloat"
  mean_nonempty :: "pyfloat list \<Rightarrow> pyfloat"

text \<open>\<^verbatim>\<open>np.mean([])\<close> is not-a-number (numpy warns and returns \<^verbatim>\<open>nan\<close>).\<close>

definition np_mean :: "('p, 'f) sklearn \<Rightarrow> pyfloat list \<Rightarrow> pyfloat" where
  "np_mean env scores = (if scores = [] then NaN else mean_nonempty env scores)"

text \<open>
  A \<^verbatim>\<open>KMeans\<close> instance: its two constructor arguments and, once fitted, its fitted
  attributes.
\<close>

record 'f KMeans =
  n_clusters :: int
  km_random_state :: int
  fitted :: "'f option"

definition KMeans_new :: "int \<Rightarrow> int \<Rightarrow> 'f KMeans" where
  "KMeans_new k seed = \<lparr>n_clusters = k, km_random_state = seed, fitted = None\<rparr>"

text \<open>\<^verbatim>\<open>model.fit(X)\<close> fits the instance in place and returns it.\<close>

definition KMeans_fit :: "('p, 'f) sklearn \<Rightarrow> 'f KMeans \<Rightarrow> 'p list \<Rightarrow> error + 'f KMeans" where
  "KMeans_fit env m X =
     (case kmeans_fit env (n_clusters m) (km_random_state m) X of
        Inl msg \<Rightarrow> Inl (SklearnError msg)
      | Inr f \<Rightarrow> Inr (m\<lparr>fitted := Some f\<rparr>))"

text \<open>\<^verbatim>\<open>model.fit_predict(X)\<close> is \<^verbatim>\<open>model.fit(X).labels_\<close>.\<close>

definition KMeans_fit_predict ::
  "('p, 'f) sklearn \<Rightarrow> 'f KMeans \<Rightarrow> 'p list \<Rightarrow> error + ('f KMeans \<times> int list)" where
  "KMeans_fit_predict env m X =
     (case kmeans_fit env (n_clusters m) (km_random_state m) X of
        Inl msg \<Rightarrow> Inl (SklearnError msg)
      | Inr f \<Rightarrow> Inr (m\<lparr>fitted := Some f\<rparr>, kmeans_labels env f))"

definition KMeans_predict :: "('p, 'f) sklearn \<Rightarrow> 'f KMeans \<Rightarrow> 'p list \<Rightarrow> error + int list" where
  "KMeans_predict env m X =
     (case fitted m of
        None \<Rightarrow> Inl NotFittedError
      | Some f \<Rightarrow> (case kmeans_predict env f X of
                    Inl msg \<Rightarrow> Inl (SklearnError msg)
                  | Inr labels \<Rightarrow> Inr labels))"

subsection \<open>The estimator object\<close>

text \<open>
  The attributes of a \<^verbatim>\<open>StableClustering\<close> instance. The fields \<open>SC_scores\<close>,
  \<open>SC_best_k\<close> and \<open>SC_best_model\<close> are the attributes \<^verbatim>\<open>scores_\<close>,
  \<^verbatim>\<open>best_k_\<close> and \<^verbatim>\<open>best_model_\<close> (a name cannot end in an underscore here).
  \<^verbatim>\<open>scores_\<close> is a Python dictionary, which keeps its keys in insertion order: an
  association list, written with \<open>AList.update\<close> (an existing key keeps its place, a new
  key goes to the end). \<^verbatim>\<open>best_k_\<close> and \<^verbatim>\<open>best_model_\<close> do not exist before
  \<^verbatim>\<open>fit\<close> assigns them (\<open>None\<close>); \<^verbatim>\<open>fit\<close> can assign Python's
  \<^verbatim>\<open>None\<close> to \<^verbatim>\<open>best_k_\<close> (\<open>Some None\<close>).
\<close>

record 'f StableClustering =
  k_values :: "int list"
  n_repetitions :: int
  algorithm :: string
  metric :: string
  random_state :: int
  SC_scores :: "(int \<times> pyfloat) list"
  SC_best_k :: "int option option"
  SC_best_model :: "'f KMeans option"

text \<open>\<^verbatim>\<open>__init__\<close>, lines 13 to 19.\<close>

definition init :: "int list \<Rightarrow> int \<Rightarrow> string \<Rightarrow> string \<Rightarrow> int \<Rightarrow> 'f StableClustering" where
  "init ks n alg met seed =
     \<lparr>k_values = ks, n_repetitions = n, algorithm = alg, metric = met,
      random_state = seed, SC_scores = [], SC_best_k = None, SC_best_model = None\<rparr>"

text \<open>Python's \<^verbatim>\<open>range(a, b)\<close> over integers.\<close>

definition py_range :: "int \<Rightarrow> int \<Rightarrow> int list" where
  "py_range a b = [a..b - 1]"

text \<open>Python's \<^verbatim>\<open>xs[i]\<close>: a negative index counts from the end.\<close>

definition py_index :: "'a list \<Rightarrow> int \<Rightarrow> error + 'a" where
  "py_index xs i =
     (if 0 \<le> i \<and> i < int (length xs) then Inr (xs ! nat i)
      else if i < 0 \<and> - int (length xs) \<le> i then Inr (xs ! nat (int (length xs) + i))
      else Inl IndexError)"

subsection \<open>\<^verbatim>\<open>fit\<close>: the repetitions of one candidate (lines 27 to 41)\<close>

text \<open>
  The loop over \<^verbatim>\<open>range(self.n_repetitions)\<close>, started with the empty list of
  \<^verbatim>\<open>clusters\<close> and the current value of the local \<^verbatim>\<open>model\<close>. Its last
  argument, returned extended, is the trace of the clustering fits executed so far, each
  as the pair of \<^verbatim>\<open>n_clusters\<close> and \<^verbatim>\<open>random_state\<close> it ran with. The program
  keeps no such list: the trace records every call of \<^verbatim>\<open>fit_predict\<close> and
  \<^verbatim>\<open>fit\<close> on a \<^verbatim>\<open>KMeans\<close> instance, so that what \<^verbatim>\<open>fit\<close> has done
  before it raises can be stated.
\<close>

type_synonym km_trace = "(int \<times> int) list"

fun repetitions ::
  "('p, 'f) sklearn \<Rightarrow> string \<Rightarrow> int \<Rightarrow> 'p list \<Rightarrow> int \<Rightarrow> int list \<Rightarrow>
   int list list \<Rightarrow> 'f KMeans option \<Rightarrow> km_trace \<Rightarrow>
   (error + (int list list \<times> 'f KMeans option)) \<times> km_trace" where
  "repetitions env alg seed X k [] clusters model tr = (Inr (clusters, model), tr)"
| "repetitions env alg seed X k (i_rep # rest) clusters model tr =
     (if alg = ''k-means'' then
        (case KMeans_fit_predict env (KMeans_new k (seed + i_rep)) X of
           Inl e \<Rightarrow> (Inl e, tr @ [(k, seed + i_rep)])
         | Inr (m, labels) \<Rightarrow>
             repetitions env alg seed X k rest (clusters @ [labels]) (Some m)
               (tr @ [(k, seed + i_rep)]))
      else (Inl InvalidAlgorithm, tr))"

subsection \<open>\<^verbatim>\<open>fit\<close>: the pairwise scores of one candidate (lines 43 to 53)\<close>

definition pair_score ::
  "('p, 'f) sklearn \<Rightarrow> string \<Rightarrow> int list list \<Rightarrow> int \<Rightarrow> int \<Rightarrow> error + pyfloat" where
  "pair_score env met clusters i j =
     (if met = ''rand'' then
        (case py_index clusters i of
           Inl e \<Rightarrow> Inl e
         | Inr ci \<Rightarrow> (case py_index clusters j of
                       Inl e \<Rightarrow> Inl e
                     | Inr cj \<Rightarrow> Inr (rand_score env ci cj)))
      else if met = ''adjusted_rand'' then
        (case py_index clusters i of
           Inl e \<Rightarrow> Inl e
         | Inr ci \<Rightarrow> (case py_index clusters j of
                       Inl e \<Rightarrow> Inl e
                     | Inr cj \<Rightarrow> Inr (adjusted_rand_score env ci cj)))
      else Inl InvalidMetric)"

fun inner_pairs ::
  "('p, 'f) sklearn \<Rightarrow> string \<Rightarrow> int list list \<Rightarrow> int \<Rightarrow> int list \<Rightarrow> pyfloat list \<Rightarrow>
   error + pyfloat list" where
  "inner_pairs env met clusters i [] scores = Inr scores"
| "inner_pairs env met clusters i (j # rest) scores =
     (case pair_score env met clusters i j of
        Inl e \<Rightarrow> Inl e
      | Inr score \<Rightarrow> inner_pairs env met clusters i rest (scores @ [score]))"

fun outer_pairs ::
  "('p, 'f) sklearn \<Rightarrow> string \<Rightarrow> int list list \<Rightarrow> int \<Rightarrow> int list \<Rightarrow> pyfloat list \<Rightarrow>
   error + pyfloat list" where
  "outer_pairs env met clusters n [] scores = Inr scores"
| "outer_pairs env met clusters n (i # rest) scores =
     (case inner_pairs env met clusters i (py_range (i + 1) n) scores of
        Inl e \<Rightarrow> Inl e
      | Inr scores' \<Rightarrow> outer_pairs env met clusters n rest scores')"

subsection \<open>\<^verbatim>\<open>fit\<close>: the loop over the candidates (lines 26 to 61)\<close>

text \<open>
  Lines 27 to 55 for one candidate \<open>k\<close>: they read the configuration of the object and
  the local \<^verbatim>\<open>model\<close>, and produce \<^verbatim>\<open>avg_score\<close> and the new value of
  \<^verbatim>\<open>model\<close>.
\<close>

definition evaluate_k ::
  "('p, 'f) sklearn \<Rightarrow> 'f StableClustering \<Rightarrow> 'p list \<Rightarrow> int \<Rightarrow> 'f KMeans option \<Rightarrow> km_trace \<Rightarrow>
   (error + (pyfloat \<times> 'f KMeans option)) \<times> km_trace" where
  "evaluate_k env self X k model tr =
     (case repetitions env (algorithm self) (random_state self) X k
             (py_range 0 (n_repetitions self)) [] model tr of
        (Inl e, tr') \<Rightarrow> (Inl e, tr')
      | (Inr (clusters, model'), tr') \<Rightarrow>
          (case outer_pairs env (metric self) clusters (n_repetitions self)
                  (py_range 0 (n_repetitions self)) [] of
             Inl e \<Rightarrow> (Inl e, tr')
           | Inr scores \<Rightarrow> (Inr (np_mean env scores, model'), tr')))"

text \<open>The locals of \<^verbatim>\<open>fit\<close> that live across the iterations of the outer loop.\<close>

record 'f locals =
  best_k :: "int option"
  best_score :: pyfloat
  best_model :: "'f KMeans option"
  model :: "'f KMeans option"

definition init_locals :: "'f locals" where
  "init_locals = \<lparr>best_k = None, best_score = Finite (- 1), best_model = None, model = None\<rparr>"

fun candidates ::
  "('p, 'f) sklearn \<Rightarrow> 'p list \<Rightarrow> int list \<Rightarrow> 'f StableClustering \<Rightarrow> 'f locals \<Rightarrow> km_trace \<Rightarrow>
   error option \<times> 'f StableClustering \<times> 'f locals \<times> km_trace" where
  "candidates env X [] self loc tr = (None, self, loc, tr)"
| "candidates env X (k # rest) self loc tr =
     (case evaluate_k env self X k (model loc) tr of
        (Inl e, tr') \<Rightarrow> (Some e, self, loc, tr')
      | (Inr (avg_score, model'), tr') \<Rightarrow>
          (let self' = self\<lparr>SC_scores := AList.update k avg_score (SC_scores self)\<rparr> in
           if py_gt avg_score (best_score loc) then
             (case model' of
                None \<Rightarrow> (Some UnboundLocalError, self', loc\<lparr>best_score := avg_score, best_k := Some k\<rparr>, tr')
              | Some m \<Rightarrow>
                  candidates env X rest self'
                    \<lparr>best_k = Some k, best_score = avg_score, best_model = Some m, model = model'\<rparr> tr')
           else candidates env X rest self' (loc\<lparr>model := model'\<rparr>) tr'))"

subsection \<open>\<^verbatim>\<open>fit\<close> and \<^verbatim>\<open>predict\<close>\<close>

text \<open>
  What a call of \<^verbatim>\<open>fit\<close> leaves behind: the exception it raised, if any, the object
  as mutated up to that point, and the trace of the clustering fits it executed.
\<close>

record 'f run =
  raised :: "error option"
  self_after :: "'f StableClustering"
  km_fits :: km_trace

definition fit :: "('p, 'f) sklearn \<Rightarrow> 'f StableClustering \<Rightarrow> 'p list \<Rightarrow> 'f run" where
  "fit env self X =
     (case candidates env X (k_values self) self init_locals [] of
        (Some e, self', loc, tr) \<Rightarrow> \<lparr>raised = Some e, self_after = self', km_fits = tr\<rparr>
      | (None, self', loc, tr) \<Rightarrow>
          (let self'' = self'\<lparr>SC_best_k := Some (best_k loc)\<rparr> in
           case best_model loc of
             None \<Rightarrow> \<lparr>raised = Some AttributeError, self_after = self'', km_fits = tr\<rparr>
           | Some m \<Rightarrow>
               (case KMeans_fit env m X of
                  Inl e \<Rightarrow> \<lparr>raised = Some e, self_after = self'',
                            km_fits = tr @ [(n_clusters m, km_random_state m)]\<rparr>
                | Inr m' \<Rightarrow> \<lparr>raised = None, self_after = self''\<lparr>SC_best_model := Some m'\<rparr>,
                             km_fits = tr @ [(n_clusters m, km_random_state m)]\<rparr>)))"

text \<open>
  \<^verbatim>\<open>hasattr(self, name)\<close>: the instance attributes that exist at that moment, and
  the methods of the class and of its scikit-learn bases (listed by their public names;
  none of them is called \<^verbatim>\<open>best_model\<close>).
\<close>

definition instance_attrs :: "'f StableClustering \<Rightarrow> string list" where
  "instance_attrs self =
     [''k_values'', ''n_repetitions'', ''algorithm'', ''metric'', ''random_state'', ''scores_'']
     @ (case SC_best_k self of None \<Rightarrow> [] | Some _ \<Rightarrow> [''best_k_''])
     @ (case SC_best_model self of None \<Rightarrow> [] | Some _ \<Rightarrow> [''best_model_''])"

definition class_attrs :: "string list" where
  "class_attrs = [''fit'', ''predict'', ''fit_predict'', ''get_params'', ''set_params'']"

definition hasattr :: "'f StableClustering \<Rightarrow> string \<Rightarrow> bool" where
  "hasattr self name = (name \<in> set (instance_attrs self @ class_attrs))"

text \<open>
  \<^verbatim>\<open>check_is_fitted(estimator, attributes)\<close> of scikit-learn raises
  \<^verbatim>\<open>NotFittedError\<close> unless the estimator has every attribute of the list.
\<close>

definition check_is_fitted :: "'f StableClustering \<Rightarrow> string list \<Rightarrow> error option" where
  "check_is_fitted self attributes =
     (if list_all (hasattr self) attributes then None else Some NotFittedError)"

text \<open>
  \<^verbatim>\<open>predict\<close>, lines 68 to 71. A call that falls off the end of the method returns
  Python's \<^verbatim>\<open>None\<close> (\<open>Inr None\<close>).
\<close>

definition predict ::
  "('p, 'f) sklearn \<Rightarrow> 'f StableClustering \<Rightarrow> 'p list \<Rightarrow> error + int list option" where
  "predict env self X =
     (case check_is_fitted self [''best_model''] of
        Some e \<Rightarrow> Inl e
      | None \<Rightarrow>
          if algorithm self = ''k-means'' then
            (case SC_best_model self of
               None \<Rightarrow> Inl AttributeError
             | Some m \<Rightarrow> (case KMeans_predict env m X of
                           Inl e \<Rightarrow> Inl e
                         | Inr labels \<Rightarrow> Inr (Some labels)))
          else Inr None)"

subsection \<open>A small instance of the library\<close>

text \<open>
  A concrete library on which the operations can be evaluated: the rows are integers
  (points on a line); the clustering takes as centres \<open>k\<close> rows of the dataset, spread
  evenly from a start that depends on the seed, and labels every row with the index of
  its nearest centre; the two scores are computed from the pair counts the way
  scikit-learn's \<^verbatim>\<open>rand_score\<close> and \<^verbatim>\<open>adjusted_rand_score\<close> do, and the mean is
  exact.
\<close>

fun nearest_from :: "int list \<Rightarrow> int \<Rightarrow> int \<Rightarrow> int \<Rightarrow> int \<Rightarrow> int" where
  "nearest_from [] x j b d = b"
| "nearest_from (c # cs) x j b d =
     (if \<bar>x - c\<bar> < d then nearest_from cs x (j + 1) j \<bar>x - c\<bar>
      else nearest_from cs x (j + 1) b d)"

definition nearest :: "int list \<Rightarrow> int \<Rightarrow> int" where
  "nearest cs x = (case cs of [] \<Rightarrow> 0 | c # cs' \<Rightarrow> nearest_from cs' x 1 0 \<bar>x - c\<bar>)"

definition toy_centres :: "int \<Rightarrow> int \<Rightarrow> int list \<Rightarrow> int list" where
  "toy_centres k seed X =
     map (\<lambda>j. X ! nat ((seed + j * (int (length X) div k)) mod int (length X))) [0..k - 1]"

definition toy_fit :: "int \<Rightarrow> int \<Rightarrow> int list \<Rightarrow> string + (int list \<times> int list)" where
  "toy_fit k seed X =
     (if k < 1 \<or> int (length X) < k then Inl ''n_clusters''
      else Inr (toy_centres k seed X, map (nearest (toy_centres k seed X)) X))"

fun pair_flags :: "int list \<Rightarrow> bool list" where
  "pair_flags [] = []"
| "pair_flags (x # xs) = map (\<lambda>y. x = y) xs @ pair_flags xs"

definition pair_count :: "bool \<Rightarrow> bool \<Rightarrow> int list \<Rightarrow> int list \<Rightarrow> real" where
  "pair_count p q a b =
     of_nat (length (filter (\<lambda>z. z = (p, q)) (zip (pair_flags a) (pair_flags b))))"

definition toy_rand :: "int list \<Rightarrow> int list \<Rightarrow> pyfloat" where
  "toy_rand a b =
     (let tp = pair_count True True a b; tn = pair_count False False a b;
          fp = pair_count False True a b; fn = pair_count True False a b
      in if fp + fn = 0 then Finite 1 else Finite ((tp + tn) / (tp + tn + fp + fn)))"

definition toy_adjusted_rand :: "int list \<Rightarrow> int list \<Rightarrow> pyfloat" where
  "toy_adjusted_rand a b =
     (let tp = pair_count True True a b; tn = pair_count False False a b;
          fp = pair_count False True a b; fn = pair_count True False a b
      in if fn = 0 \<and> fp = 0 then Finite 1
         else Finite (2 * (tp * tn - fn * fp) / ((tp + fn) * (fn + tn) + (tp + fp) * (fp + tn))))"

fun finite_sum :: "pyfloat list \<Rightarrow> real option" where
  "finite_sum [] = Some 0"
| "finite_sum (Finite x # xs) = (case finite_sum xs of None \<Rightarrow> None | Some s \<Rightarrow> Some (x + s))"
| "finite_sum (_ # xs) = None"

definition toy_mean :: "pyfloat list \<Rightarrow> pyfloat" where
  "toy_mean xs = (case finite_sum xs of None \<Rightarrow> NaN | Some s \<Rightarrow> Finite (s / of_nat (length xs)))"

definition toy :: "(int, int list \<times> int list) sklearn" where
  "toy = \<lparr>kmeans_fit = toy_fit, kmeans_labels = snd,
          kmeans_predict = (\<lambda>f X. Inr (map (nearest (fst f)) X)),
          rand_score = toy_rand, adjusted_rand_score = toy_adjusted_rand,
          mean_nonempty = toy_mean\<rparr>"

definition blobs :: "int list" where
  "blobs = [0, 1, 10, 11, 20, 21]"

subsection \<open>The quantities the specification names\<close>

text \<open>
  The agreement score of two partitions under a supported metric name, the unordered
  pairs of \<open>n\<close> repetitions, and the mean of the agreement scores over all unordered pairs
  of a sequence of partitions.
\<close>

definition agreement :: "('p, 'f) sklearn \<Rightarrow> string \<Rightarrow> int list \<Rightarrow> int list \<Rightarrow> pyfloat" where
  "agreement env met a b =
     (if met = ''rand'' then rand_score env a b else adjusted_rand_score env a b)"

definition unordered_pairs :: "nat \<Rightarrow> (nat \<times> nat) list" where
  "unordered_pairs n = filter (\<lambda>(i, j). i < j) (List.product [0..<n] [0..<n])"

definition mean_pairwise :: "('p, 'f) sklearn \<Rightarrow> string \<Rightarrow> int list list \<Rightarrow> pyfloat" where
  "mean_pairwise env met parts =
     np_mean env (map (\<lambda>(i, j). agreement env met (parts ! i) (parts ! j))
                    (unordered_pairs (length parts)))"

text \<open>
  The partitions of the repetitions of candidate \<open>k\<close> (empty where the clustering
  raises), the score the candidate gets from them, and the instance the last repetition
  leaves in the local \<^verbatim>\<open>model\<close>.
\<close>

definition candidate_parts ::
  "('p, 'f) sklearn \<Rightarrow> 'f StableClustering \<Rightarrow> 'p list \<Rightarrow> int \<Rightarrow> int list list" where
  "candidate_parts env self X k =
     map (\<lambda>i. case kmeans_fit env k (random_state self + i) X of
                 Inl e \<Rightarrow> []
               | Inr f \<Rightarrow> kmeans_labels env f)
         (py_range 0 (n_repetitions self))"

definition candidate_score ::
  "('p, 'f) sklearn \<Rightarrow> 'f StableClustering \<Rightarrow> 'p list \<Rightarrow> int \<Rightarrow> pyfloat" where
  "candidate_score env self X k = mean_pairwise env (metric self) (candidate_parts env self X k)"

definition last_model ::
  "('p, 'f) sklearn \<Rightarrow> 'f StableClustering \<Rightarrow> 'p list \<Rightarrow> int \<Rightarrow> 'f KMeans" where
  "last_model env self X k =
     \<lparr>n_clusters = k, km_random_state = random_state self + (n_repetitions self - 1),
      fitted = (case kmeans_fit env k (random_state self + (n_repetitions self - 1)) X of
                  Inl e \<Rightarrow> None
                | Inr f \<Rightarrow> Some f)\<rparr>"

text \<open>The clustering fits that evaluating the candidates \<open>ks\<close> executes, in order.\<close>

definition evaluation_fits :: "'f StableClustering \<Rightarrow> int list \<Rightarrow> km_trace" where
  "evaluation_fits self ks =
     concat (map (\<lambda>k. map (\<lambda>i. (k, random_state self + i)) (py_range 0 (n_repetitions self))) ks)"

text \<open>Writing a list of entries into a dictionary, one after the other.\<close>

definition dict_updates :: "(int \<times> pyfloat) list \<Rightarrow> (int \<times> pyfloat) list \<Rightarrow> (int \<times> pyfloat) list" where
  "dict_updates ups d = fold (\<lambda>(k, v). AList.update k v) ups d"

text \<open>Two estimators constructed with the same parameters.\<close>

definition same_config :: "'f StableClustering \<Rightarrow> 'f StableClustering \<Rightarrow> bool" where
  "same_config a b \<longleftrightarrow>
     k_values a = k_values b \<and> n_repetitions a = n_repetitions b \<and>
     algorithm a = algorithm b \<and> metric a = metric b \<and> random_state a = random_state b"

text \<open>
  Lines 58 to 61: the locals after a candidate \<open>k\<close> whose evaluation gave \<open>avg\<close> and
  left \<open>m\<close> in \<^verbatim>\<open>model\<close>.
\<close>

definition next_locals :: "int \<Rightarrow> pyfloat \<Rightarrow> 'f KMeans option \<Rightarrow> 'f locals \<Rightarrow> 'f locals" where
  "next_locals k avg m loc =
     (if py_gt avg (best_score loc)
      then \<lparr>best_k = Some k, best_score = avg, best_model = m, model = m\<rparr>
      else loc\<lparr>model := m\<rparr>)"

section \<open>Properties\<close>

subsection \<open>Floats, ranges and indexing\<close>

lemma py_gt_NaN_left [simp]: "\<not> py_gt NaN b"
  by (cases b) simp_all

lemma py_gt_NaN_right [simp]: "\<not> py_gt a NaN"
  by (cases a) simp_all

lemma py_gt_irrefl [simp]: "\<not> py_gt a a"
  by (cases a) simp_all

lemma py_gt_trans: "py_gt a b \<Longrightarrow> py_gt b c \<Longrightarrow> py_gt a c"
  by (cases a; cases b; cases c) auto

lemma py_gt_asym: "py_gt a b \<Longrightarrow> \<not> py_gt b a"
  by (cases a; cases b) auto

lemma py_gt_not_trans: "\<not> py_gt a b \<Longrightarrow> py_gt c b \<Longrightarrow> \<not> py_gt a c"
  by (cases a; cases b; cases c) auto

lemma np_mean_Nil [simp]: "np_mean env [] = NaN"
  by (simp add: np_mean_def)

lemma py_range_empty [simp]: "b \<le> a \<Longrightarrow> py_range a b = []"
  by (simp add: py_range_def)

lemma py_range_Cons: "a < b \<Longrightarrow> py_range a b = a # py_range (a + 1) b"
  by (simp add: py_range_def upto_rec1)

lemma repetitions_invalid:
  "alg \<noteq> ''k-means'' \<Longrightarrow> is \<noteq> [] \<Longrightarrow>
   repetitions env alg seed X k is clusters mdl tr = (Inl InvalidAlgorithm, tr)"
  by (cases "is") simp_all

lemma repetitions_Inr:
  "repetitions env alg seed X k is clusters mdl tr = (Inr (cl', m'), tr') \<Longrightarrow>
   (is \<noteq> [] \<longrightarrow> alg = ''k-means'') \<and>
   tr' = tr @ map (\<lambda>i. (k, seed + i)) is \<and>
   (\<exists>fs. list_all2 (\<lambda>i f. kmeans_fit env k (seed + i) X = Inr f) is fs \<and>
         cl' = clusters @ map (kmeans_labels env) fs \<and>
         m' = (if is = [] then mdl
               else Some \<lparr>n_clusters = k, km_random_state = seed + last is,
                          fitted = Some (last fs)\<rparr>))"
proof (induction "is" arbitrary: clusters mdl tr)
  case Nil
  then show ?case by simp
next
  case (Cons i rest)
  from Cons.prems have alg: "alg = ''k-means''"
    by (auto split: if_splits)
  from Cons.prems alg obtain f where f: "kmeans_fit env k (seed + i) X = Inr f"
    by (auto simp: KMeans_fit_predict_def KMeans_new_def split: sum.splits)
  let ?m = "\<lparr>n_clusters = k, km_random_state = seed + i, fitted = Some f\<rparr>"
  from Cons.prems alg f
  have rest: "repetitions env alg seed X k rest (clusters @ [kmeans_labels env f]) (Some ?m)
                (tr @ [(k, seed + i)]) = (Inr (cl', m'), tr')"
    by (simp add: KMeans_fit_predict_def KMeans_new_def)
  from Cons.IH [OF rest] obtain fs where
    tr': "tr' = (tr @ [(k, seed + i)]) @ map (\<lambda>i. (k, seed + i)) rest" and
    fs: "list_all2 (\<lambda>i f. kmeans_fit env k (seed + i) X = Inr f) rest fs" and
    cl': "cl' = (clusters @ [kmeans_labels env f]) @ map (kmeans_labels env) fs" and
    m': "m' = (if rest = [] then Some ?m
               else Some \<lparr>n_clusters = k, km_random_state = seed + last rest,
                          fitted = Some (last fs)\<rparr>)"
    by blast
  have len: "length rest = length fs"
    using fs by (rule list_all2_lengthD)
  have "list_all2 (\<lambda>i f. kmeans_fit env k (seed + i) X = Inr f) (i # rest) (f # fs)"
    using f fs by simp
  moreover have "cl' = clusters @ map (kmeans_labels env) (f # fs)"
    using cl' by simp
  moreover have "m' = Some \<lparr>n_clusters = k, km_random_state = seed + last (i # rest),
                          fitted = Some (last (f # fs))\<rparr>"
    using m' len by (cases rest; cases fs) simp_all
  ultimately show ?case
    using alg tr' by (intro conjI exI [of _ "f # fs"]) simp_all
qed

lemma repetitions_Inl:
  "repetitions env alg seed X k is clusters mdl tr = (Inl e, tr') \<Longrightarrow>
   (e = InvalidAlgorithm \<and> alg \<noteq> ''k-means'' \<and> tr' = tr) \<or>
   (alg = ''k-means'' \<and> tr' \<noteq> [] \<and>
    (\<exists>i \<in> set is. \<exists>msg. kmeans_fit env k (seed + i) X = Inl msg \<and> e = SklearnError msg))"
proof (induction "is" arbitrary: clusters mdl tr)
  case Nil
  then show ?case by simp
next
  case (Cons i rest)
  show ?case
  proof (cases "alg = ''k-means''")
    case False
    with Cons.prems show ?thesis by simp
  next
    case True
    show ?thesis
    proof (cases "kmeans_fit env k (seed + i) X")
      case (Inl e')
      with Cons.prems True show ?thesis
        by (auto simp: KMeans_fit_predict_def KMeans_new_def)
    next
      case (Inr f)
      with Cons.prems True
      have "repetitions env alg seed X k rest (clusters @ [kmeans_labels env f])
              (Some \<lparr>n_clusters = k, km_random_state = seed + i, fitted = Some f\<rparr>)
              (tr @ [(k, seed + i)]) = (Inl e, tr')"
        by (simp add: KMeans_fit_predict_def KMeans_new_def)
      from Cons.IH [OF this] True show ?thesis by auto
    qed
  qed
qed

lemma upto_map_int: "[int a..int b - 1] = map int [a..<b]"
proof (induction b)
  case 0
  then show ?case by simp
next
  case (Suc b)
  show ?case
  proof (cases "a \<le> b")
    case True
    then have "[int a..int (Suc b) - 1] = [int a..int b - 1] @ [int b]"
      using upto_rec2 [of "int a" "int b"] by simp
    with Suc True show ?thesis by simp
  next
    case False
    then show ?thesis by simp
  qed
qed

lemma py_range_map_int: "py_range (int a) (int b) = map int [a..<b]"
  by (simp add: py_range_def upto_map_int)

lemma py_range_0: "py_range 0 n = map int [0..<nat n]"
proof (cases "0 \<le> n")
  case True
  then show ?thesis using py_range_map_int [of 0 "nat n"] by simp
next
  case False
  then show ?thesis by simp
qed

lemma py_range_Suc: "0 \<le> n \<Longrightarrow> py_range (int i + 1) n = map int [Suc i..<nat n]"
  using py_range_map_int [of "Suc i" "nat n"] by (simp add: add.commute)

lemma py_index_nat: "i < length xs \<Longrightarrow> py_index xs (int i) = Inr (xs ! i)"
  by (simp add: py_index_def)

subsection \<open>The pairwise scores\<close>

lemma pair_score_valid:
  "met = ''rand'' \<or> met = ''adjusted_rand'' \<Longrightarrow> i < length cl \<Longrightarrow> j < length cl \<Longrightarrow>
   pair_score env met cl (int i) (int j) = Inr (agreement env met (cl ! i) (cl ! j))"
  by (auto simp: pair_score_def agreement_def py_index_nat)

lemma pair_score_invalid:
  "met \<noteq> ''rand'' \<Longrightarrow> met \<noteq> ''adjusted_rand'' \<Longrightarrow> pair_score env met cl i j = Inl InvalidMetric"
  by (simp add: pair_score_def)

lemma inner_pairs_valid:
  "met = ''rand'' \<or> met = ''adjusted_rand'' \<Longrightarrow> i < length cl \<Longrightarrow> \<forall>j \<in> set js. j < length cl \<Longrightarrow>
   inner_pairs env met cl (int i) (map int js) scores =
     Inr (scores @ map (\<lambda>j. agreement env met (cl ! i) (cl ! j)) js)"
  by (induction js arbitrary: scores) (simp_all add: pair_score_valid)

lemma inner_pairs_invalid:
  "met \<noteq> ''rand'' \<Longrightarrow> met \<noteq> ''adjusted_rand'' \<Longrightarrow> js \<noteq> [] \<Longrightarrow>
   inner_pairs env met cl i js scores = Inl InvalidMetric"
  by (cases js) (simp_all add: pair_score_invalid)

lemma outer_pairs_valid:
  "met = ''rand'' \<or> met = ''adjusted_rand'' \<Longrightarrow> nat n \<le> length cl \<Longrightarrow> 0 \<le> n \<Longrightarrow>
   \<forall>i \<in> set is. i < nat n \<Longrightarrow>
   outer_pairs env met cl n (map int is) scores =
     Inr (scores @ concat (map (\<lambda>i. map (\<lambda>j. agreement env met (cl ! i) (cl ! j)) [Suc i..<nat n]) is))"
proof (induction "is" arbitrary: scores)
  case Nil
  then show ?case by simp
next
  case (Cons i rest)
  have "inner_pairs env met cl (int i) (py_range (int i + 1) n) scores =
          Inr (scores @ map (\<lambda>j. agreement env met (cl ! i) (cl ! j)) [Suc i..<nat n])"
    using Cons.prems by (simp add: py_range_Suc inner_pairs_valid)
  then show ?case using Cons by simp
qed

lemma filter_less_upt: "filter (\<lambda>j. i < j) [0..<n] = [Suc i..<n]"
  by (induction n) auto

lemma unordered_pairs_concat:
  "unordered_pairs n = concat (map (\<lambda>i. map (Pair i) [Suc i..<n]) [0..<n])"
proof -
  have "unordered_pairs n =
          concat (map (\<lambda>i. filter (\<lambda>(i, j). i < j) (map (Pair i) [0..<n])) [0..<n])"
    by (simp add: unordered_pairs_def product_concat_map filter_concat comp_def)
  also have "\<dots> = concat (map (\<lambda>i. map (Pair i) [Suc i..<n]) [0..<n])"
  proof -
    have "\<And>i. i \<in> set [0..<n] \<Longrightarrow>
            filter (\<lambda>(i, j). i < j) (map (Pair i) [0..<n]) = map (Pair i) [Suc i..<n]"
      by (simp add: filter_map comp_def filter_less_upt)
    then show ?thesis by (metis (no_types, lifting) map_eq_conv)
  qed
  finally show ?thesis .
qed

lemma double_sum_below: "2 * (\<Sum>i<n. i) = n * (n - 1)" for n :: nat
proof (induction n)
  case 0
  then show ?case by simp
next
  case (Suc n)
  have "2 * (\<Sum>i<Suc n. i) = 2 * (\<Sum>i<n. i) + 2 * n"
    by simp
  also have "\<dots> = n * (n - 1) + 2 * n"
    using Suc by simp
  also have "\<dots> = Suc n * (Suc n - 1)"
    by (cases n) simp_all
  finally show ?case .
qed

lemma gauss_down: "(\<Sum>i\<leftarrow>[0..<n]. n - Suc i) = n * (n - 1) div 2"
proof -
  have "(\<Sum>i\<leftarrow>[0..<n]. n - Suc i) = (\<Sum>i<n. n - Suc i)"
    by (simp add: interv_sum_list_conv_sum_set_nat atLeast0LessThan)
  also have "\<dots> = (\<Sum>i<n. i)"
    by (rule sum.nat_diff_reindex)
  also have "\<dots> = n * (n - 1) div 2"
    using double_sum_below [of n] by linarith
  finally show ?thesis .
qed

lemma length_unordered_pairs: "length (unordered_pairs n) = n * (n - 1) div 2"
proof -
  have "length (unordered_pairs n) = (\<Sum>i\<leftarrow>[0..<n]. n - Suc i)"
    by (simp add: unordered_pairs_concat length_concat comp_def)
  then show ?thesis by (simp add: gauss_down)
qed

lemma outer_pairs_all:
  assumes "met = ''rand'' \<or> met = ''adjusted_rand''" and "length cl = nat n"
  shows "outer_pairs env met cl n (py_range 0 n) [] =
           Inr (map (\<lambda>(i, j). agreement env met (cl ! i) (cl ! j)) (unordered_pairs (length cl)))"
proof (cases "0 \<le> n")
  case True
  have "outer_pairs env met cl n (map int [0..<nat n]) [] =
          Inr ([] @ concat (map (\<lambda>i. map (\<lambda>j. agreement env met (cl ! i) (cl ! j)) [Suc i..<nat n])
                              [0..<nat n]))"
    using assms True by (intro outer_pairs_valid) simp_all
  moreover have "map (\<lambda>(i, j). agreement env met (cl ! i) (cl ! j)) (unordered_pairs (nat n)) =
                 concat (map (\<lambda>i. map (\<lambda>j. agreement env met (cl ! i) (cl ! j)) [Suc i..<nat n])
                              [0..<nat n])"
    by (simp add: unordered_pairs_concat map_concat comp_def)
  ultimately show ?thesis using assms by (simp add: py_range_0)
next
  case False
  then show ?thesis using assms by (simp add: unordered_pairs_def)
qed

lemma outer_pairs_invalid:
  assumes "met \<noteq> ''rand''" and "met \<noteq> ''adjusted_rand''" and "2 \<le> n"
  shows "outer_pairs env met cl n (py_range 0 n) scores = Inl InvalidMetric"
proof -
  have "py_range 0 n = 0 # py_range 1 n" and "py_range 1 n \<noteq> []"
    using assms(3) by (simp_all add: py_range_def upto_rec1)
  then show ?thesis using assms by (simp add: inner_pairs_invalid)
qed

lemma outer_pairs_few:
  "n < 2 \<Longrightarrow> outer_pairs env met cl n (py_range 0 n) scores = Inr scores"
proof -
  assume "n < 2"
  then have "n \<le> 0 \<or> n = 1" by linarith
  then show ?thesis
  proof
    assume "n \<le> 0" then show ?thesis by simp
  next
    assume "n = 1" then show ?thesis by (simp add: py_range_def)
  qed
qed

subsection \<open>One candidate\<close>

lemma unordered_pairs_few: "n < 2 \<Longrightarrow> unordered_pairs n = []"
proof -
  assume "n < 2"
  then have "n = 0 \<or> n = 1" by linarith
  then have "length (unordered_pairs n) = 0"
    by (auto simp: length_unordered_pairs)
  then show ?thesis by simp
qed

lemma mean_pairwise_few: "length parts < 2 \<Longrightarrow> mean_pairwise env met parts = NaN"
  by (simp add: mean_pairwise_def unordered_pairs_few)

lemma last_py_range: "1 \<le> n \<Longrightarrow> last (py_range 0 n) = n - 1"
  using upto_rec2 [of 0 "n - 1"] by (simp add: py_range_def)

lemma length_py_range: "length (py_range 0 n) = nat n"
  by (simp add: py_range_def)

lemma evaluate_k_scores [simp]:
  "evaluate_k env (self\<lparr>SC_scores := s\<rparr>) X k mdl tr = evaluate_k env self X k mdl tr"
  by (auto simp: evaluate_k_def split: prod.splits sum.splits)

lemma evaluate_k_Inr:
  assumes "evaluate_k env self X k mdl tr = (Inr (avg, m'), tr')"
  shows "tr' = tr @ map (\<lambda>i. (k, random_state self + i)) (py_range 0 (n_repetitions self)) \<and>
         (1 \<le> n_repetitions self \<longrightarrow> algorithm self = ''k-means'') \<and>
         (2 \<le> n_repetitions self \<longrightarrow> metric self = ''rand'' \<or> metric self = ''adjusted_rand'') \<and>
         (\<exists>fs. list_all2 (\<lambda>i f. kmeans_fit env k (random_state self + i) X = Inr f)
                  (py_range 0 (n_repetitions self)) fs \<and>
               avg = mean_pairwise env (metric self) (map (kmeans_labels env) fs) \<and>
               m' = (if n_repetitions self \<le> 0 then mdl
                     else Some \<lparr>n_clusters = k,
                                km_random_state = random_state self + (n_repetitions self - 1),
                                fitted = Some (last fs)\<rparr>))"
proof -
  let ?n = "n_repetitions self"
  from assms obtain cl where
    rep: "repetitions env (algorithm self) (random_state self) X k (py_range 0 ?n) [] mdl tr
            = (Inr (cl, m'), tr')"
    by (auto simp: evaluate_k_def split: prod.splits sum.splits)
  with assms obtain scores where
    out: "outer_pairs env (metric self) cl ?n (py_range 0 ?n) [] = Inr scores" and
    avg: "avg = np_mean env scores"
    by (auto simp: evaluate_k_def split: prod.splits sum.splits)
  from repetitions_Inr [OF rep] obtain fs where
    alg: "py_range 0 ?n \<noteq> [] \<longrightarrow> algorithm self = ''k-means''" and
    tr': "tr' = tr @ map (\<lambda>i. (k, random_state self + i)) (py_range 0 ?n)" and
    fs: "list_all2 (\<lambda>i f. kmeans_fit env k (random_state self + i) X = Inr f) (py_range 0 ?n) fs" and
    cl: "cl = map (kmeans_labels env) fs" and
    m': "m' = (if py_range 0 ?n = [] then mdl
               else Some \<lparr>n_clusters = k, km_random_state = random_state self + last (py_range 0 ?n),
                          fitted = Some (last fs)\<rparr>)"
    by auto
  have len: "length cl = nat ?n"
    using fs cl by (auto dest: list_all2_lengthD simp: length_py_range)
  have nonempty: "py_range 0 ?n = [] \<longleftrightarrow> ?n \<le> 0"
    by (auto simp: py_range_def)
  have metric_ok: "metric self = ''rand'' \<or> metric self = ''adjusted_rand''" if "2 \<le> ?n"
  proof (rule ccontr)
    assume "\<not> ?thesis"
    then have "outer_pairs env (metric self) cl ?n (py_range 0 ?n) [] = Inl InvalidMetric"
      using that by (intro outer_pairs_invalid) simp_all
    with out show False by simp
  qed
  have "avg = mean_pairwise env (metric self) cl"
  proof (cases "2 \<le> ?n")
    case True
    from outer_pairs_all [where env = env, OF metric_ok [OF True] len] out avg show ?thesis
      by (simp add: mean_pairwise_def)
  next
    case False
    then have "scores = []" using out by (simp add: outer_pairs_few)
    moreover have "length cl < 2" using len False by simp
    ultimately show ?thesis using avg by (simp add: mean_pairwise_few)
  qed
  moreover have "m' = (if ?n \<le> 0 then mdl
                       else Some \<lparr>n_clusters = k, km_random_state = random_state self + (?n - 1),
                                  fitted = Some (last fs)\<rparr>)"
    using m' nonempty by (simp add: last_py_range)
  ultimately show ?thesis
    using tr' alg nonempty metric_ok fs cl by auto
qed

lemma evaluate_k_Inl:
  assumes "evaluate_k env self X k mdl tr = (Inl e, tr')"
  shows "(e = InvalidAlgorithm \<and> algorithm self \<noteq> ''k-means'' \<and> tr' = tr) \<or>
         (algorithm self = ''k-means'' \<and> tr' \<noteq> [] \<and>
          (\<exists>i \<in> set (py_range 0 (n_repetitions self)). \<exists>msg.
             kmeans_fit env k (random_state self + i) X = Inl msg \<and> e = SklearnError msg)) \<or>
         (e = InvalidMetric \<and> algorithm self = ''k-means'' \<and>
          metric self \<noteq> ''rand'' \<and> metric self \<noteq> ''adjusted_rand'' \<and>
          2 \<le> n_repetitions self \<and>
          tr' = tr @ map (\<lambda>i. (k, random_state self + i)) (py_range 0 (n_repetitions self)))"
proof -
  let ?n = "n_repetitions self"
  let ?rep = "repetitions env (algorithm self) (random_state self) X k (py_range 0 ?n) [] mdl tr"
  obtain r t where rt: "?rep = (r, t)" by fastforce
  show ?thesis
  proof (cases r)
    case (Inl e')
    with rt assms have "e' = e" "t = tr'"
      by (simp_all add: evaluate_k_def)
    with rt Inl have "?rep = (Inl e, tr')" by simp
    from repetitions_Inl [OF this] show ?thesis by blast
  next
    case (Inr p)
    with rt obtain cl m' where rep: "?rep = (Inr (cl, m'), t)"
      by (cases p) simp
    with assms have out: "outer_pairs env (metric self) cl ?n (py_range 0 ?n) [] = Inl e"
      and tr: "t = tr'"
      by (auto simp: evaluate_k_def split: sum.splits)
    from repetitions_Inr [OF rep] obtain fs where
      alg: "py_range 0 ?n \<noteq> [] \<longrightarrow> algorithm self = ''k-means''" and
      tr': "t = tr @ map (\<lambda>i. (k, random_state self + i)) (py_range 0 ?n)" and
      fs: "list_all2 (\<lambda>i f. kmeans_fit env k (random_state self + i) X = Inr f) (py_range 0 ?n) fs" and
      cl: "cl = map (kmeans_labels env) fs"
      by auto
    have len: "length cl = nat ?n"
      using fs cl by (auto dest: list_all2_lengthD simp: length_py_range)
    have n2: "2 \<le> ?n"
    proof (rule ccontr)
      assume "\<not> 2 \<le> ?n"
      then have "outer_pairs env (metric self) cl ?n (py_range 0 ?n) [] = Inr []"
        by (simp add: outer_pairs_few)
      with out show False by simp
    qed
    have bad: "metric self \<noteq> ''rand'' \<and> metric self \<noteq> ''adjusted_rand''"
    proof (rule ccontr)
      assume "\<not> ?thesis"
      then have "metric self = ''rand'' \<or> metric self = ''adjusted_rand''" by blast
      from outer_pairs_all [where env = env, OF this len] out show False by simp
    qed
    then have "outer_pairs env (metric self) cl ?n (py_range 0 ?n) [] = Inl InvalidMetric"
      using n2 by (intro outer_pairs_invalid) simp_all
    with out have "e = InvalidMetric" by simp
    moreover have "algorithm self = ''k-means''"
      using alg n2 by (simp add: py_range_def)
    ultimately show ?thesis using bad n2 tr tr' by simp
  qed
qed

lemma evaluate_k_invalid_algorithm:
  "algorithm self \<noteq> ''k-means'' \<Longrightarrow> 1 \<le> n_repetitions self \<Longrightarrow>
   evaluate_k env self X k mdl tr = (Inl InvalidAlgorithm, tr)"
  by (simp add: evaluate_k_def repetitions_invalid py_range_def)

lemma evaluate_k_no_repetitions:
  "n_repetitions self \<le> 0 \<Longrightarrow> evaluate_k env self X k mdl tr = (Inr (NaN, mdl), tr)"
  by (simp add: evaluate_k_def)

lemma list_all2_parts:
  "list_all2 (\<lambda>i f. g i = Inr f) is fs \<Longrightarrow>
   map h fs = map (\<lambda>i. case g i of Inl msg \<Rightarrow> [] | Inr f \<Rightarrow> h f) is"
  by (induction rule: list_all2_induct) simp_all

lemma list_all2_last:
  "list_all2 P xs ys \<Longrightarrow> xs \<noteq> [] \<Longrightarrow> P (last xs) (last ys)"
  by (induction rule: list_all2_induct) (auto dest: list_all2_lengthD)

lemma list_all2_fits:
  "list_all2 (\<lambda>i f. g i = Inr f) is fs \<Longrightarrow> \<forall>i \<in> set is. \<exists>f. g i = Inr f"
  by (induction rule: list_all2_induct) simp_all

lemma evaluate_k_success:
  assumes "evaluate_k env self X k mdl tr = (Inr (avg, m'), tr')"
  shows "avg = candidate_score env self X k"
    and "tr' = tr @ evaluation_fits self [k]"
    and "1 \<le> n_repetitions self \<Longrightarrow> algorithm self = ''k-means''"
    and "2 \<le> n_repetitions self \<Longrightarrow> metric self = ''rand'' \<or> metric self = ''adjusted_rand''"
    and "\<forall>i \<in> set (py_range 0 (n_repetitions self)).
           \<exists>f. kmeans_fit env k (random_state self + i) X = Inr f"
    and "m' = (if n_repetitions self \<le> 0 then mdl else Some (last_model env self X k))"
    and "1 \<le> n_repetitions self \<Longrightarrow> fitted (last_model env self X k) \<noteq> None"
proof -
  let ?n = "n_repetitions self"
  from evaluate_k_Inr [OF assms] obtain fs where
    tr': "tr' = tr @ map (\<lambda>i. (k, random_state self + i)) (py_range 0 ?n)" and
    alg: "1 \<le> ?n \<longrightarrow> algorithm self = ''k-means''" and
    met: "2 \<le> ?n \<longrightarrow> metric self = ''rand'' \<or> metric self = ''adjusted_rand''" and
    fs: "list_all2 (\<lambda>i f. kmeans_fit env k (random_state self + i) X = Inr f) (py_range 0 ?n) fs" and
    avg: "avg = mean_pairwise env (metric self) (map (kmeans_labels env) fs)" and
    m': "m' = (if ?n \<le> 0 then mdl
               else Some \<lparr>n_clusters = k, km_random_state = random_state self + (?n - 1),
                          fitted = Some (last fs)\<rparr>)"
    by blast
  show "avg = candidate_score env self X k"
    using avg list_all2_parts [OF fs, of "kmeans_labels env"]
    by (simp add: candidate_score_def candidate_parts_def)
  show "tr' = tr @ evaluation_fits self [k]"
    using tr' by (simp add: evaluation_fits_def)
  show "1 \<le> ?n \<Longrightarrow> algorithm self = ''k-means''" using alg by simp
  show "2 \<le> ?n \<Longrightarrow> metric self = ''rand'' \<or> metric self = ''adjusted_rand''" using met by simp
  show "\<forall>i \<in> set (py_range 0 ?n). \<exists>f. kmeans_fit env k (random_state self + i) X = Inr f"
    using fs by (rule list_all2_fits)
  have last: "kmeans_fit env k (random_state self + (?n - 1)) X = Inr (last fs)" if "1 \<le> ?n"
  proof -
    from that have "py_range 0 ?n \<noteq> []" by (simp add: py_range_def)
    from list_all2_last [OF fs this] that show ?thesis by (simp add: last_py_range)
  qed
  show "m' = (if ?n \<le> 0 then mdl else Some (last_model env self X k))"
    using m' last by (simp add: last_model_def)
  show "1 \<le> ?n \<Longrightarrow> fitted (last_model env self X k) \<noteq> None"
    using last by (simp add: last_model_def)
qed

lemma candidate_score_few: "n_repetitions self < 2 \<Longrightarrow> candidate_score env self X k = NaN"
  by (simp add: candidate_score_def candidate_parts_def mean_pairwise_few length_py_range)

lemma evaluate_k_state [simp]:
  "evaluate_k env (self\<lparr>SC_scores := s, SC_best_k := bk, SC_best_model := bm\<rparr>) X k mdl tr =
   evaluate_k env self X k mdl tr"
  by (auto simp: evaluate_k_def split: prod.splits sum.splits)

lemma candidate_score_state [simp]:
  "candidate_score env (self\<lparr>SC_scores := s\<rparr>) X k = candidate_score env self X k"
  by (simp add: candidate_score_def candidate_parts_def)

lemma last_model_state [simp]:
  "last_model env (self\<lparr>SC_scores := s\<rparr>) X k = last_model env self X k"
  by (simp add: last_model_def)

lemma evaluation_fits_state [simp]:
  "evaluation_fits (self\<lparr>SC_scores := s\<rparr>) ks = evaluation_fits self ks"
  by (simp add: evaluation_fits_def)

lemma evaluation_fits_Cons:
  "evaluation_fits self (k # ks) = evaluation_fits self [k] @ evaluation_fits self ks"
  by (simp add: evaluation_fits_def)

subsection \<open>The loop over the candidates\<close>

lemma candidates_Cons_Inl:
  "evaluate_k env a X k (model loc) tr = (Inl e, t) \<Longrightarrow>
   candidates env X (k # rest) a loc tr = (Some e, a, loc, t)"
  by simp

lemma candidates_Cons_Inr:
  assumes "evaluate_k env a X k (model loc) tr = (Inr (avg, m'), t)"
  shows "candidates env X (k # rest) a loc tr =
           candidates env X rest (a\<lparr>SC_scores := AList.update k avg (SC_scores a)\<rparr>)
             (next_locals k avg m' loc) t"
proof (cases "py_gt avg (best_score loc)")
  case True
  have "2 \<le> n_repetitions a"
  proof (rule ccontr)
    assume "\<not> 2 \<le> n_repetitions a"
    then have "avg = NaN"
      using evaluate_k_success(1) [OF assms] by (simp add: candidate_score_few)
    with True show False by simp
  qed
  then obtain m where "m' = Some m"
    using evaluate_k_success(6) [OF assms] by simp
  with assms True show ?thesis by (simp add: next_locals_def)
next
  case False
  with assms show ?thesis by (simp add: next_locals_def)
qed

declare candidates.simps(2) [simp del]

lemma dict_updates_Nil [simp]: "dict_updates [] d = d"
  by (simp add: dict_updates_def)

lemma dict_updates_Cons [simp]:
  "dict_updates ((k, v) # ups) d = dict_updates ups (AList.update k v d)"
  by (simp add: dict_updates_def)

lemma evaluate_k_same_config:
  "same_config a b \<Longrightarrow> evaluate_k env a X k mdl tr = evaluate_k env b X k mdl tr"
  by (auto simp: evaluate_k_def same_config_def split: prod.splits sum.splits)

lemma candidate_score_same_config:
  "same_config a b \<Longrightarrow> candidate_score env a X k = candidate_score env b X k"
  by (simp add: candidate_score_def candidate_parts_def same_config_def)

lemma same_config_scores [simp]:
  "same_config (a\<lparr>SC_scores := s\<rparr>) (b\<lparr>SC_scores := s'\<rparr>) = same_config a b"
  by (simp add: same_config_def)

lemma candidates_state:
  "candidates env X ks a loc tr = (err, a', loc', tr') \<Longrightarrow>
   \<exists>ups. a' = a\<lparr>SC_scores := dict_updates ups (SC_scores a)\<rparr> \<and>
         (err = None \<longrightarrow> ups = map (\<lambda>k. (k, candidate_score env a X k)) ks) \<and>
         set ups \<subseteq> (\<lambda>k. (k, candidate_score env a X k)) ` set ks \<and>
         (\<forall>b. same_config a b \<longrightarrow>
            candidates env X ks b loc tr =
              (err, b\<lparr>SC_scores := dict_updates ups (SC_scores b)\<rparr>, loc', tr'))"
proof (induction ks arbitrary: a loc tr)
  case Nil
  then show ?case by (intro exI [of _ "[]"]) auto
next
  case (Cons k rest)
  obtain r t where ev: "evaluate_k env a X k (model loc) tr = (r, t)" by fastforce
  show ?case
  proof (cases r)
    case (Inl e)
    with ev Cons.prems have "err = Some e" "a' = a" "loc' = loc" "tr' = t"
      by (simp_all add: candidates_Cons_Inl)
    moreover have "candidates env X (k # rest) b loc tr = (Some e, b, loc, t)"
      if "same_config a b" for b
      using ev Inl evaluate_k_same_config [OF that, of env X k "model loc" tr]
      by (simp add: candidates_Cons_Inl)
    ultimately show ?thesis
      by (intro exI [of _ "[]"]) simp
  next
    case (Inr p)
    then obtain avg m' where p: "r = Inr (avg, m')" by (cases p) simp
    let ?a1 = "a\<lparr>SC_scores := AList.update k avg (SC_scores a)\<rparr>"
    let ?loc1 = "next_locals k avg m' loc"
    have avg: "avg = candidate_score env a X k"
      using ev p by (auto dest: evaluate_k_success(1))
    have "candidates env X rest ?a1 ?loc1 t = (err, a', loc', tr')"
      using Cons.prems candidates_Cons_Inr [of env a X k loc tr avg m' t rest] ev p by simp
    from Cons.IH [OF this] obtain ups where
      a': "a' = ?a1\<lparr>SC_scores := dict_updates ups (SC_scores ?a1)\<rparr>" and
      ok: "err = None \<longrightarrow> ups = map (\<lambda>k. (k, candidate_score env ?a1 X k)) rest" and
      sub: "set ups \<subseteq> (\<lambda>k. (k, candidate_score env ?a1 X k)) ` set rest" and
      all: "\<And>b. same_config ?a1 b \<Longrightarrow>
              candidates env X rest b ?loc1 t =
                (err, b\<lparr>SC_scores := dict_updates ups (SC_scores b)\<rparr>, loc', tr')"
      by blast
    have "candidates env X (k # rest) b loc tr =
            (err, b\<lparr>SC_scores := dict_updates ((k, avg) # ups) (SC_scores b)\<rparr>, loc', tr')"
      if "same_config a b" for b
    proof -
      have "evaluate_k env b X k (model loc) tr = (Inr (avg, m'), t)"
        using ev p evaluate_k_same_config [OF that, of env X k "model loc" tr] by simp
      from candidates_Cons_Inr [OF this, of rest]
      show ?thesis
        using all [of "b\<lparr>SC_scores := AList.update k avg (SC_scores b)\<rparr>"] that by simp
    qed
    then show ?thesis
      using a' ok sub avg by (intro exI [of _ "(k, avg) # ups"]) auto
  qed
qed

lemma n_repetitions_scores [simp]: "n_repetitions (a\<lparr>SC_scores := s\<rparr>) = n_repetitions a"
  by simp

lemma candidates_None_facts:
  "candidates env X ks a loc tr = (None, a', loc', tr') \<Longrightarrow>
   tr' = tr @ evaluation_fits a ks \<and>
   (\<forall>k \<in> set ks. \<forall>i \<in> set (py_range 0 (n_repetitions a)).
      \<exists>f. kmeans_fit env k (random_state a + i) X = Inr f) \<and>
   (ks \<noteq> [] \<and> 1 \<le> n_repetitions a \<longrightarrow> algorithm a = ''k-means'') \<and>
   (ks \<noteq> [] \<and> 2 \<le> n_repetitions a \<longrightarrow> metric a = ''rand'' \<or> metric a = ''adjusted_rand'')"
proof (induction ks arbitrary: a loc tr)
  case Nil
  then show ?case by (simp add: evaluation_fits_def)
next
  case (Cons k rest)
  obtain r t where ev: "evaluate_k env a X k (model loc) tr = (r, t)" by fastforce
  show ?case
  proof (cases r)
    case (Inl e)
    with ev Cons.prems show ?thesis by (simp add: candidates_Cons_Inl)
  next
    case (Inr p)
    then obtain avg m' where p: "r = Inr (avg, m')" by (cases p) simp
    let ?a1 = "a\<lparr>SC_scores := AList.update k avg (SC_scores a)\<rparr>"
    have ev': "evaluate_k env a X k (model loc) tr = (Inr (avg, m'), t)"
      using ev p by simp
    have "candidates env X rest ?a1 (next_locals k avg m' loc) t = (None, a', loc', tr')"
      using Cons.prems candidates_Cons_Inr [OF ev', of rest] by simp
    from Cons.IH [OF this] have
      "tr' = t @ evaluation_fits a rest" and
      "\<forall>k \<in> set rest. \<forall>i \<in> set (py_range 0 (n_repetitions a)).
         \<exists>f. kmeans_fit env k (random_state a + i) X = Inr f"
      by simp_all
    moreover note evaluate_k_success(2-5) [OF ev']
    ultimately show ?thesis
      using evaluation_fits_Cons [of a k rest] by simp
  qed
qed

lemma candidates_select:
  "candidates env X ks a loc tr = (None, a', loc', tr') \<Longrightarrow>
   (\<forall>k \<in> set ks. \<not> py_gt (candidate_score env a X k) (best_score loc')) \<and>
   ((best_k loc' = best_k loc \<and> best_score loc' = best_score loc \<and>
     best_model loc' = best_model loc) \<or>
    (\<exists>k \<in> set ks.
       best_k loc' = Some k \<and> best_score loc' = candidate_score env a X k \<and>
       py_gt (candidate_score env a X k) (best_score loc) \<and>
       best_model loc' = Some (last_model env a X k) \<and> 2 \<le> n_repetitions a \<and>
       (\<forall>k' \<in> set (takeWhile (\<lambda>x. x \<noteq> k) ks).
          candidate_score env a X k' \<noteq> candidate_score env a X k)))"
proof (induction ks arbitrary: a loc tr)
  case Nil
  then show ?case by simp
next
  case (Cons k0 rest)
  obtain r t where ev: "evaluate_k env a X k0 (model loc) tr = (r, t)" by fastforce
  show ?case
  proof (cases r)
    case (Inl e)
    with ev Cons.prems show ?thesis by (simp add: candidates_Cons_Inl)
  next
    case (Inr p)
    then obtain avg m' where p: "r = Inr (avg, m')" by (cases p) simp
    let ?a1 = "a\<lparr>SC_scores := AList.update k0 avg (SC_scores a)\<rparr>"
    let ?loc1 = "next_locals k0 avg m' loc"
    let ?sc = "candidate_score env a X"
    have ev': "evaluate_k env a X k0 (model loc) tr = (Inr (avg, m'), t)"
      using ev p by simp
    have avg: "avg = ?sc k0"
      by (rule evaluate_k_success(1) [OF ev'])
    have "candidates env X rest ?a1 ?loc1 t = (None, a', loc', tr')"
      using Cons.prems candidates_Cons_Inr [OF ev', of rest] by simp
    from Cons.IH [OF this] have
      max_rest: "\<forall>k \<in> set rest. \<not> py_gt (?sc k) (best_score loc')" and
      sel: "(best_k loc' = best_k ?loc1 \<and> best_score loc' = best_score ?loc1 \<and>
             best_model loc' = best_model ?loc1) \<or>
            (\<exists>k \<in> set rest.
               best_k loc' = Some k \<and> best_score loc' = ?sc k \<and>
               py_gt (?sc k) (best_score ?loc1) \<and>
               best_model loc' = Some (last_model env a X k) \<and> 2 \<le> n_repetitions a \<and>
               (\<forall>k' \<in> set (takeWhile (\<lambda>x. x \<noteq> k) rest). ?sc k' \<noteq> ?sc k))"
      by simp_all
    show ?thesis
    proof (cases "py_gt avg (best_score loc)")
      case True
      have n2: "2 \<le> n_repetitions a"
      proof (rule ccontr)
        assume "\<not> 2 \<le> n_repetitions a"
        then have "avg = NaN" using avg by (simp add: candidate_score_few)
        with True show False by simp
      qed
      then have m': "m' = Some (last_model env a X k0)"
        using evaluate_k_success(6) [OF ev'] by simp
      have loc1: "best_k ?loc1 = Some k0" "best_score ?loc1 = ?sc k0"
        "best_model ?loc1 = Some (last_model env a X k0)"
        using True avg m' by (simp_all add: next_locals_def)
      from sel show ?thesis
      proof
        assume same: "best_k loc' = best_k ?loc1 \<and> best_score loc' = best_score ?loc1 \<and>
                      best_model loc' = best_model ?loc1"
        then have "\<not> py_gt (?sc k0) (best_score loc')"
          using loc1 by simp
        moreover have "\<exists>k \<in> set (k0 # rest).
            best_k loc' = Some k \<and> best_score loc' = ?sc k \<and>
            py_gt (?sc k) (best_score loc) \<and>
            best_model loc' = Some (last_model env a X k) \<and> 2 \<le> n_repetitions a \<and>
            (\<forall>k' \<in> set (takeWhile (\<lambda>x. x \<noteq> k) (k0 # rest)). ?sc k' \<noteq> ?sc k)"
          using same loc1 True avg n2 by (intro bexI [of _ k0]) simp_all
        ultimately show ?thesis using max_rest by simp
      next
        assume "\<exists>k \<in> set rest.
               best_k loc' = Some k \<and> best_score loc' = ?sc k \<and>
               py_gt (?sc k) (best_score ?loc1) \<and>
               best_model loc' = Some (last_model env a X k) \<and> 2 \<le> n_repetitions a \<and>
               (\<forall>k' \<in> set (takeWhile (\<lambda>x. x \<noteq> k) rest). ?sc k' \<noteq> ?sc k)"
        then obtain k where k: "k \<in> set rest" "best_k loc' = Some k" "best_score loc' = ?sc k"
          "py_gt (?sc k) (?sc k0)" "best_model loc' = Some (last_model env a X k)"
          "\<forall>k' \<in> set (takeWhile (\<lambda>x. x \<noteq> k) rest). ?sc k' \<noteq> ?sc k"
          using loc1 by auto
        have "\<not> py_gt (?sc k0) (best_score loc')"
          using k(3,4) by (simp add: py_gt_asym)
        moreover have "py_gt (?sc k) (best_score loc)"
          using k(4) True avg by (auto intro: py_gt_trans)
        moreover have "?sc k0 \<noteq> ?sc k"
          using k(4) by auto
        then have "\<forall>k' \<in> set (takeWhile (\<lambda>x. x \<noteq> k) (k0 # rest)). ?sc k' \<noteq> ?sc k"
          using k(6) by auto
        ultimately have "\<exists>k \<in> set (k0 # rest).
            best_k loc' = Some k \<and> best_score loc' = ?sc k \<and>
            py_gt (?sc k) (best_score loc) \<and>
            best_model loc' = Some (last_model env a X k) \<and> 2 \<le> n_repetitions a \<and>
            (\<forall>k' \<in> set (takeWhile (\<lambda>x. x \<noteq> k) (k0 # rest)). ?sc k' \<noteq> ?sc k)"
          using k n2 by (intro bexI [of _ k]) simp_all
        with \<open>\<not> py_gt (?sc k0) (best_score loc')\<close> max_rest show ?thesis by simp
      qed
    next
      case False
      have loc1: "best_k ?loc1 = best_k loc" "best_score ?loc1 = best_score loc"
        "best_model ?loc1 = best_model loc"
        using False by (simp_all add: next_locals_def)
      from sel show ?thesis
      proof
        assume same: "best_k loc' = best_k ?loc1 \<and> best_score loc' = best_score ?loc1 \<and>
                      best_model loc' = best_model ?loc1"
        then have "\<not> py_gt (?sc k0) (best_score loc')"
          using loc1 False avg by simp
        with same loc1 max_rest show ?thesis by simp
      next
        assume "\<exists>k \<in> set rest.
               best_k loc' = Some k \<and> best_score loc' = ?sc k \<and>
               py_gt (?sc k) (best_score ?loc1) \<and>
               best_model loc' = Some (last_model env a X k) \<and> 2 \<le> n_repetitions a \<and>
               (\<forall>k' \<in> set (takeWhile (\<lambda>x. x \<noteq> k) rest). ?sc k' \<noteq> ?sc k)"
        then obtain k where k: "k \<in> set rest" "best_k loc' = Some k" "best_score loc' = ?sc k"
          "py_gt (?sc k) (best_score loc)" "best_model loc' = Some (last_model env a X k)"
          "2 \<le> n_repetitions a"
          "\<forall>k' \<in> set (takeWhile (\<lambda>x. x \<noteq> k) rest). ?sc k' \<noteq> ?sc k"
          using loc1 by auto
        have "\<not> py_gt (?sc k0) (best_score loc')"
          using k(3,4) False avg by (metis py_gt_trans)
        moreover have "?sc k0 \<noteq> ?sc k"
          using k(4) False avg by auto
        then have "\<forall>k' \<in> set (takeWhile (\<lambda>x. x \<noteq> k) (k0 # rest)). ?sc k' \<noteq> ?sc k"
          using k(7) by auto
        then have "\<exists>k \<in> set (k0 # rest).
            best_k loc' = Some k \<and> best_score loc' = ?sc k \<and>
            py_gt (?sc k) (best_score loc) \<and>
            best_model loc' = Some (last_model env a X k) \<and> 2 \<le> n_repetitions a \<and>
            (\<forall>k' \<in> set (takeWhile (\<lambda>x. x \<noteq> k) (k0 # rest)). ?sc k' \<noteq> ?sc k)"
          using k by (intro bexI [of _ k]) simp_all
        ultimately show ?thesis using max_rest by simp
      qed
    qed
  qed
qed

lemma candidates_error:
  "candidates env X ks a loc tr = (Some e, a', loc', tr') \<Longrightarrow>
   (e = InvalidAlgorithm \<and> algorithm a \<noteq> ''k-means'') \<or>
   (e = InvalidMetric \<and> algorithm a = ''k-means'' \<and>
    metric a \<noteq> ''rand'' \<and> metric a \<noteq> ''adjusted_rand'' \<and>
    2 \<le> n_repetitions a \<and> nat (n_repetitions a) \<le> length tr') \<or>
   (algorithm a = ''k-means'' \<and> tr' \<noteq> [] \<and>
    (\<exists>k \<in> set ks. \<exists>i \<in> set (py_range 0 (n_repetitions a)). \<exists>msg.
       kmeans_fit env k (random_state a + i) X = Inl msg \<and> e = SklearnError msg))"
proof (induction ks arbitrary: a loc tr)
  case Nil
  then show ?case by simp
next
  case (Cons k rest)
  obtain r t where ev: "evaluate_k env a X k (model loc) tr = (r, t)" by fastforce
  show ?case
  proof (cases r)
    case (Inl e')
    with ev Cons.prems have "evaluate_k env a X k (model loc) tr = (Inl e, tr')"
      by (simp add: candidates_Cons_Inl)
    from evaluate_k_Inl [OF this] consider
      (alg) "e = InvalidAlgorithm" "algorithm a \<noteq> ''k-means''"
    | (lib) "algorithm a = ''k-means''" "tr' \<noteq> []"
        "\<exists>i \<in> set (py_range 0 (n_repetitions a)). \<exists>msg.
           kmeans_fit env k (random_state a + i) X = Inl msg \<and> e = SklearnError msg"
    | (met) "e = InvalidMetric" "algorithm a = ''k-means''"
        "metric a \<noteq> ''rand''" "metric a \<noteq> ''adjusted_rand''" "2 \<le> n_repetitions a"
        "tr' = tr @ map (\<lambda>i. (k, random_state a + i)) (py_range 0 (n_repetitions a))"
      by blast
    then show ?thesis
    proof cases
      case alg
      then show ?thesis by simp
    next
      case lib
      then show ?thesis by auto
    next
      case met
      then have "nat (n_repetitions a) \<le> length tr'"
        by (simp add: length_py_range)
      with met show ?thesis by simp
    qed
  next
    case (Inr p)
    then obtain avg m' where p: "r = Inr (avg, m')" by (cases p) simp
    have ev': "evaluate_k env a X k (model loc) tr = (Inr (avg, m'), t)"
      using ev p by simp
    have "candidates env X rest (a\<lparr>SC_scores := AList.update k avg (SC_scores a)\<rparr>)
            (next_locals k avg m' loc) t = (Some e, a', loc', tr')"
      using Cons.prems candidates_Cons_Inr [OF ev', of rest] by simp
    from Cons.IH [OF this] show ?thesis by auto
  qed
qed

lemma candidates_no_clustering:
  "algorithm a \<noteq> ''k-means'' \<Longrightarrow> candidates env X ks a loc tr = (err, a', loc', tr') \<Longrightarrow> tr' = tr"
proof (induction ks arbitrary: a loc tr)
  case Nil
  then show ?case by simp
next
  case (Cons k rest)
  obtain r t where ev: "evaluate_k env a X k (model loc) tr = (r, t)" by fastforce
  show ?case
  proof (cases r)
    case (Inl e)
    with ev Cons.prems have "evaluate_k env a X k (model loc) tr = (Inl e, tr')"
      by (simp add: candidates_Cons_Inl)
    from evaluate_k_Inl [OF this] Cons.prems(1) show ?thesis by auto
  next
    case (Inr p)
    then obtain avg m' where p: "r = Inr (avg, m')" by (cases p) simp
    have ev': "evaluate_k env a X k (model loc) tr = (Inr (avg, m'), t)"
      using ev p by simp
    have "\<not> 1 \<le> n_repetitions a"
      using evaluate_k_success(3) [OF ev'] Cons.prems(1) by blast
    then have "t = tr"
      using evaluate_k_success(2) [OF ev'] by (simp add: evaluation_fits_def)
    moreover have "candidates env X rest (a\<lparr>SC_scores := AList.update k avg (SC_scores a)\<rparr>)
            (next_locals k avg m' loc) t = (err, a', loc', tr')"
      using Cons.prems candidates_Cons_Inr [OF ev', of rest] by simp
    moreover have "algorithm (a\<lparr>SC_scores := AList.update k avg (SC_scores a)\<rparr>) \<noteq> ''k-means''"
      using Cons.prems(1) by simp
    ultimately show ?thesis using Cons.IH by blast
  qed
qed

lemma candidates_no_repetitions:
  "n_repetitions a \<le> 0 \<Longrightarrow>
   candidates env X ks a loc tr =
     (None, a\<lparr>SC_scores := dict_updates (map (\<lambda>k. (k, NaN)) ks) (SC_scores a)\<rparr>, loc, tr)"
proof (induction ks arbitrary: a)
  case Nil
  then show ?case by simp
next
  case (Cons k rest)
  have ev: "evaluate_k env a X k (model loc) tr = (Inr (NaN, model loc), tr)"
    using Cons.prems by (rule evaluate_k_no_repetitions)
  have "next_locals k NaN (model loc) loc = loc"
    by (simp add: next_locals_def)
  with candidates_Cons_Inr [OF ev, of rest] Cons.IH [of "a\<lparr>SC_scores := AList.update k NaN (SC_scores a)\<rparr>"]
    Cons.prems
  show ?case by simp
qed

lemma candidates_invalid_algorithm:
  "algorithm a \<noteq> ''k-means'' \<Longrightarrow> 1 \<le> n_repetitions a \<Longrightarrow>
   candidates env X (k # rest) a loc tr = (Some InvalidAlgorithm, a, loc, tr)"
  by (simp add: candidates_Cons_Inl evaluate_k_invalid_algorithm)

lemma evaluate_k_invalid_metric:
  assumes "algorithm a = ''k-means''"
    and "metric a \<noteq> ''rand''" and "metric a \<noteq> ''adjusted_rand''"
    and "2 \<le> n_repetitions a"
    and "\<forall>i \<in> set (py_range 0 (n_repetitions a)). \<exists>f. kmeans_fit env k (random_state a + i) X = Inr f"
  shows "evaluate_k env a X k mdl tr = (Inl InvalidMetric, tr @ evaluation_fits a [k])"
proof -
  obtain r t where ev: "evaluate_k env a X k mdl tr = (r, t)" by fastforce
  show ?thesis
  proof (cases r)
    case (Inl e)
    with ev have "evaluate_k env a X k mdl tr = (Inl e, t)" by simp
    from evaluate_k_Inl [OF this] assms have
      "e = InvalidMetric \<and> t = tr @ map (\<lambda>i. (k, random_state a + i)) (py_range 0 (n_repetitions a))"
      by auto
    with ev Inl show ?thesis by (simp add: evaluation_fits_def)
  next
    case (Inr p)
    then obtain avg m' where "r = Inr (avg, m')" by (cases p) simp
    with ev have "evaluate_k env a X k mdl tr = (Inr (avg, m'), t)" by simp
    from evaluate_k_success(4) [OF this] assms show ?thesis by simp
  qed
qed

subsection \<open>\<^verbatim>\<open>fit\<close> as a whole\<close>

lemma fit_loop_error:
  "candidates env X (k_values a) a init_locals [] = (Some e, a', loc', tr') \<Longrightarrow>
   fit env a X = \<lparr>raised = Some e, self_after = a', km_fits = tr'\<rparr>"
  by (simp add: fit_def)

lemma fit_no_model:
  "candidates env X (k_values a) a init_locals [] = (None, a', loc', tr') \<Longrightarrow>
   best_model loc' = None \<Longrightarrow>
   fit env a X = \<lparr>raised = Some AttributeError,
                  self_after = a'\<lparr>SC_best_k := Some (best_k loc')\<rparr>, km_fits = tr'\<rparr>"
  by (simp add: fit_def)

lemma KMeans_fit_last_model:
  "fitted (last_model env a X k) \<noteq> None \<Longrightarrow>
   KMeans_fit env (last_model env a X k) X = Inr (last_model env a X k)"
  by (auto simp: KMeans_fit_def last_model_def split: sum.splits)

lemma fit_refit:
  "candidates env X (k_values a) a init_locals [] = (None, a', loc', tr') \<Longrightarrow>
   best_model loc' = Some (last_model env a X k) \<Longrightarrow>
   fitted (last_model env a X k) \<noteq> None \<Longrightarrow>
   fit env a X =
     \<lparr>raised = None,
      self_after = a'\<lparr>SC_best_k := Some (best_k loc'), SC_best_model := Some (last_model env a X k)\<rparr>,
      km_fits = tr' @ [(k, random_state a + (n_repetitions a - 1))]\<rparr>"
  by (simp add: fit_def KMeans_fit_last_model) (simp add: last_model_def)

lemma last_model_fitted:
  assumes "1 \<le> n_repetitions a"
    and "\<forall>i \<in> set (py_range 0 (n_repetitions a)). \<exists>f. kmeans_fit env k (random_state a + i) X = Inr f"
  shows "fitted (last_model env a X k) \<noteq> None"
proof -
  have "n_repetitions a - 1 \<in> set (py_range 0 (n_repetitions a))"
    using assms(1) by (simp add: py_range_def)
  with assms(2) obtain f where
    "kmeans_fit env k (random_state a + (n_repetitions a - 1)) X = Inr f"
    by blast
  then show ?thesis by (simp add: last_model_def)
qed

text \<open>
  Every way a call of \<^verbatim>\<open>fit\<close> can end: an exception inside the loop, no candidate
  selected, or the refit of the model of the selected candidate.
\<close>

lemma fit_outcome:
  obtains
    (loop_error) e a' loc' tr' where
      "candidates env X (k_values a) a init_locals [] = (Some e, a', loc', tr')"
      "fit env a X = \<lparr>raised = Some e, self_after = a', km_fits = tr'\<rparr>"
  | (no_model) a' loc' tr' where
      "candidates env X (k_values a) a init_locals [] = (None, a', loc', tr')"
      "best_k loc' = None" "best_model loc' = None"
      "fit env a X = \<lparr>raised = Some AttributeError, self_after = a'\<lparr>SC_best_k := Some None\<rparr>,
                      km_fits = tr'\<rparr>"
  | (selected) a' loc' tr' k where
      "candidates env X (k_values a) a init_locals [] = (None, a', loc', tr')"
      "k \<in> set (k_values a)" "best_k loc' = Some k"
      "best_score loc' = candidate_score env a X k"
      "py_gt (candidate_score env a X k) (Finite (- 1))"
      "2 \<le> n_repetitions a"
      "\<forall>k' \<in> set (takeWhile (\<lambda>x. x \<noteq> k) (k_values a)).
         candidate_score env a X k' \<noteq> candidate_score env a X k"
      "\<forall>k' \<in> set (k_values a). \<not> py_gt (candidate_score env a X k') (candidate_score env a X k)"
      "fitted (last_model env a X k) \<noteq> None"
      "fit env a X =
         \<lparr>raised = None,
          self_after = a'\<lparr>SC_best_k := Some (Some k), SC_best_model := Some (last_model env a X k)\<rparr>,
          km_fits = tr' @ [(k, random_state a + (n_repetitions a - 1))]\<rparr>"
proof -
  obtain err a' loc' tr' where c: "candidates env X (k_values a) a init_locals [] = (err, a', loc', tr')"
    by (metis prod.collapse)
  show thesis
  proof (cases err)
    case (Some e)
    with c show thesis by (intro loop_error [of e a' loc' tr']) (simp_all add: fit_loop_error)
  next
    case None
    with c have c': "candidates env X (k_values a) a init_locals [] = (None, a', loc', tr')"
      by simp
    from candidates_select [OF c'] consider
      (same) "best_k loc' = None" "best_model loc' = None"
    | (new) k where "k \<in> set (k_values a)" "best_k loc' = Some k"
        "best_score loc' = candidate_score env a X k"
        "py_gt (candidate_score env a X k) (Finite (- 1))"
        "best_model loc' = Some (last_model env a X k)" "2 \<le> n_repetitions a"
        "\<forall>k' \<in> set (takeWhile (\<lambda>x. x \<noteq> k) (k_values a)).
           candidate_score env a X k' \<noteq> candidate_score env a X k"
        "\<forall>k' \<in> set (k_values a). \<not> py_gt (candidate_score env a X k') (candidate_score env a X k)"
      by (auto simp: init_locals_def)
    then show thesis
    proof cases
      case same
      with c' show thesis
        using fit_no_model [OF c'] by (intro no_model [of a' loc' tr']) simp_all
    next
      case new
      have fitted: "fitted (last_model env a X k) \<noteq> None"
        using candidates_None_facts [OF c'] new(1,6) by (intro last_model_fitted) auto
      show thesis
        using new fitted fit_refit [OF c' new(5) fitted]
        by (intro selected [of a' loc' tr' k]) (simp_all add: c')
    qed
  qed
qed

subsection \<open>The score table\<close>

lemma map_of_dict_updates: "map_of (dict_updates ups d) = map_of d ++ map_of (rev ups)"
proof (induction ups arbitrary: d)
  case Nil
  then show ?case by simp
next
  case (Cons p ups)
  obtain k v where p: "p = (k, v)" by (cases p)
  have "map_of (dict_updates (p # ups) d) = map_of (AList.update k v d) ++ map_of (rev ups)"
    using Cons.IH [of "AList.update k v d"] p by simp
  also have "\<dots> = (map_of d ++ [k \<mapsto> v]) ++ map_of (rev ups)"
    by (simp add: update_conv')
  also have "\<dots> = map_of d ++ map_of (rev (p # ups))"
    using p by (simp add: map_add_assoc map_add_upd_left)
  finally show ?case .
qed

lemma map_of_dict_updates_other:
  "k \<notin> fst ` set ups \<Longrightarrow> map_of (dict_updates ups d) k = map_of d k"
proof -
  assume "k \<notin> fst ` set ups"
  then have "map_of (rev ups) k = None"
    by (simp add: map_of_eq_None_iff)
  then show ?thesis by (simp add: map_of_dict_updates map_add_def)
qed

lemma map_of_graph: "k \<in> set ks \<Longrightarrow> map_of (map (\<lambda>k. (k, f k)) ks) k = Some (f k)"
  by (induction ks) auto

lemma map_of_dict_updates_graph:
  "k \<in> set ks \<Longrightarrow> map_of (dict_updates (map (\<lambda>k. (k, f k)) ks) d) k = Some (f k)"
proof -
  assume "k \<in> set ks"
  then have "map_of (rev (map (\<lambda>k. (k, f k)) ks)) k = Some (f k)"
    using map_of_graph [of k "rev ks" f] by (simp add: rev_map)
  then show ?thesis by (simp add: map_of_dict_updates map_add_def)
qed

lemma fit_scores:
  obtains ups where
    "SC_scores (self_after (fit env a X)) = dict_updates ups (SC_scores a)"
    "set ups \<subseteq> (\<lambda>k. (k, candidate_score env a X k)) ` set (k_values a)"
    "raised (fit env a X) = None \<or> raised (fit env a X) = Some AttributeError \<Longrightarrow>
       ups = map (\<lambda>k. (k, candidate_score env a X k)) (k_values a)"
proof (cases rule: fit_outcome [of env X a])
  case (loop_error e a' loc' tr')
  from candidates_state [OF loop_error(1)] obtain ups where
    "a' = a\<lparr>SC_scores := dict_updates ups (SC_scores a)\<rparr>"
    "set ups \<subseteq> (\<lambda>k. (k, candidate_score env a X k)) ` set (k_values a)"
    by blast
  moreover have "e \<noteq> AttributeError"
    using candidates_error [OF loop_error(1)] by auto
  ultimately show thesis
    using loop_error(2) by (intro that [of ups]) simp_all
next
  case (no_model a' loc' tr')
  from candidates_state [OF no_model(1)] obtain ups where
    "a' = a\<lparr>SC_scores := dict_updates ups (SC_scores a)\<rparr>"
    "set ups \<subseteq> (\<lambda>k. (k, candidate_score env a X k)) ` set (k_values a)"
    "ups = map (\<lambda>k. (k, candidate_score env a X k)) (k_values a)"
    by blast
  then show thesis
    using no_model(4) by (intro that [of ups]) simp_all
next
  case (selected a' loc' tr' k)
  from candidates_state [OF selected(1)] obtain ups where
    "a' = a\<lparr>SC_scores := dict_updates ups (SC_scores a)\<rparr>"
    "set ups \<subseteq> (\<lambda>k. (k, candidate_score env a X k)) ` set (k_values a)"
    "ups = map (\<lambda>k. (k, candidate_score env a X k)) (k_values a)"
    by blast
  then show thesis
    using selected(10) by (intro that [of ups]) simp_all
qed

lemma fit_frame:
  "k \<notin> set (k_values a) \<Longrightarrow>
   map_of (SC_scores (self_after (fit env a X))) k = map_of (SC_scores a) k"
proof -
  assume k: "k \<notin> set (k_values a)"
  obtain ups where
    "SC_scores (self_after (fit env a X)) = dict_updates ups (SC_scores a)"
    "set ups \<subseteq> (\<lambda>k. (k, candidate_score env a X k)) ` set (k_values a)"
    by (rule fit_scores)
  moreover from this k have "k \<notin> fst ` set ups" by auto
  ultimately show ?thesis by (simp add: map_of_dict_updates_other)
qed

subsection \<open>\<^verbatim>\<open>predict\<close>\<close>

lemma hasattr_best_model: "\<not> hasattr self ''best_model''"
  by (simp add: hasattr_def instance_attrs_def class_attrs_def split: option.splits)

lemma predict_not_fitted: "predict env self X = Inl NotFittedError"
  by (simp add: predict_def check_is_fitted_def hasattr_best_model)

subsection \<open>Completed runs, key order and traces\<close>

lemma fit_completed:
  assumes "raised (fit env a X) = None"
  obtains k where
    "k \<in> set (k_values a)"
    "SC_best_k (self_after (fit env a X)) = Some (Some k)"
    "SC_best_model (self_after (fit env a X)) = Some (last_model env a X k)"
    "SC_scores (self_after (fit env a X)) =
       dict_updates (map (\<lambda>k. (k, candidate_score env a X k)) (k_values a)) (SC_scores a)"
    "km_fits (fit env a X) =
       evaluation_fits a (k_values a) @ [(k, random_state a + (n_repetitions a - 1))]"
    "2 \<le> n_repetitions a" "algorithm a = ''k-means''"
    "metric a = ''rand'' \<or> metric a = ''adjusted_rand''"
    "\<forall>k' \<in> set (k_values a). \<forall>i \<in> set (py_range 0 (n_repetitions a)).
       \<exists>f. kmeans_fit env k' (random_state a + i) X = Inr f"
    "py_gt (candidate_score env a X k) (Finite (- 1))"
    "\<forall>k' \<in> set (k_values a). \<not> py_gt (candidate_score env a X k') (candidate_score env a X k)"
    "\<forall>k' \<in> set (takeWhile (\<lambda>x. x \<noteq> k) (k_values a)).
       candidate_score env a X k' \<noteq> candidate_score env a X k"
    "fitted (last_model env a X k) \<noteq> None"
proof (cases rule: fit_outcome [of env X a])
  case (loop_error e a' loc' tr')
  with assms show ?thesis by simp
next
  case (no_model a' loc' tr')
  with assms show ?thesis by simp
next
  case (selected a' loc' tr' k)
  from candidates_state [OF selected(1)] have
    a': "a' = a\<lparr>SC_scores := dict_updates (map (\<lambda>k. (k, candidate_score env a X k)) (k_values a))
                                (SC_scores a)\<rparr>"
    by auto
  have ne: "k_values a \<noteq> []" using selected(2) by auto
  from candidates_None_facts [OF selected(1)] ne selected(6) have
    tr': "tr' = evaluation_fits a (k_values a)" and
    fits: "\<forall>k' \<in> set (k_values a). \<forall>i \<in> set (py_range 0 (n_repetitions a)).
             \<exists>f. kmeans_fit env k' (random_state a + i) X = Inr f" and
    alg: "algorithm a = ''k-means''" and
    met: "metric a = ''rand'' \<or> metric a = ''adjusted_rand''"
    by simp_all
  show ?thesis
    using selected a' tr' fits alg met by (intro that [of k]) simp_all
qed

lemma find_first:
  "k \<in> set ks \<Longrightarrow> P k \<Longrightarrow> \<forall>k' \<in> set (takeWhile (\<lambda>x. x \<noteq> k) ks). \<not> P k' \<Longrightarrow> find P ks = Some k"
  by (induction ks) (auto split: if_splits)

lemma distinct_dict_updates:
  "distinct (map fst d) \<Longrightarrow> distinct (map fst (dict_updates ups d))"
proof (induction ups arbitrary: d)
  case Nil
  then show ?case by simp
next
  case (Cons p ups)
  obtain k v where "p = (k, v)" by (cases p)
  with Cons show ?case by (simp add: distinct_update)
qed

lemma candidate_parts_nth:
  assumes "i < nat (n_repetitions a)"
    and "kmeans_fit env k (random_state a + int i) X = Inr f"
  shows "candidate_parts env a X k ! i = kmeans_labels env f"
  using assms by (simp add: candidate_parts_def py_range_0)

lemma set_unordered_pairs: "set (unordered_pairs n) = {(i, j). i < j \<and> j < n}"
  by (auto simp: unordered_pairs_def)

lemma remdups_snoc: "remdups (xs @ [k]) = filter (\<lambda>x. x \<noteq> k) (remdups xs) @ [k]"
  by (induction xs) auto

lemma keys_dict_updates:
  "map fst (dict_updates ups d) =
     map fst d @ rev (remdups (rev (filter (\<lambda>k. k \<notin> fst ` set d) (map fst ups))))"
proof (induction ups arbitrary: d)
  case Nil
  then show ?case by simp
next
  case (Cons p ups)
  obtain k v where p: "p = (k, v)" by (cases p)
  let ?F = "filter (\<lambda>x. x \<notin> fst ` set d) (map fst ups)"
  show ?case
  proof (cases "k \<in> fst ` set d")
    case True
    then have "map fst (AList.update k v d) = map fst d" "fst ` set (AList.update k v d) = fst ` set d"
      by (auto simp: update_keys dom_update)
    with Cons.IH [of "AList.update k v d"] p True show ?thesis by simp
  next
    case False
    then have keys: "map fst (AList.update k v d) = map fst d @ [k]"
      by (simp add: update_keys)
    have "filter (\<lambda>x. x \<notin> fst ` set (AList.update k v d)) (map fst ups) = filter (\<lambda>x. x \<noteq> k) ?F"
      by (auto simp: dom_update intro: filter_cong)
    with Cons.IH [of "AList.update k v d"] keys
    have "map fst (dict_updates ups (AList.update k v d)) =
            map fst d @ k # rev (remdups (rev (filter (\<lambda>x. x \<noteq> k) ?F)))"
      by simp
    moreover have "rev (remdups (rev (k # ?F))) = k # rev (remdups (rev (filter (\<lambda>x. x \<noteq> k) ?F)))"
      by (simp add: remdups_snoc rev_filter remdups_filter)
    moreover have "filter (\<lambda>x. x \<notin> fst ` set d) (map fst (p # ups)) = k # ?F"
      using p False by simp
    ultimately show ?thesis using p by (simp del: rev.simps)
  qed
qed

lemma map_fst_graph: "map fst (map (\<lambda>k. (k, f k)) ks) = ks"
  by (simp add: comp_def)

lemma repetitions_trace:
  "repetitions env alg seed X k is cl mdl tr = (r, tr') \<Longrightarrow> \<exists>t. tr' = tr @ t"
proof (induction "is" arbitrary: cl mdl tr)
  case Nil
  then show ?case by simp
next
  case (Cons i rest)
  show ?case
  proof (cases "alg = ''k-means''")
    case False
    with Cons.prems show ?thesis by simp
  next
    case True
    show ?thesis
    proof (cases "kmeans_fit env k (seed + i) X")
      case (Inl msg)
      with Cons.prems True show ?thesis
        by (auto simp: KMeans_fit_predict_def KMeans_new_def)
    next
      case (Inr f)
      with Cons.prems True
      have "repetitions env alg seed X k rest (cl @ [kmeans_labels env f])
              (Some \<lparr>n_clusters = k, km_random_state = seed + i, fitted = Some f\<rparr>)
              (tr @ [(k, seed + i)]) = (r, tr')"
        by (simp add: KMeans_fit_predict_def KMeans_new_def)
      from Cons.IH [OF this] show ?thesis by auto
    qed
  qed
qed

lemma repetitions_trace_first:
  assumes "repetitions env ''k-means'' seed X k (i # rest) cl mdl tr = (r, tr')"
  shows "\<exists>t. tr' = tr @ (k, seed + i) # t"
proof (cases "kmeans_fit env k (seed + i) X")
  case (Inl msg)
  with assms show ?thesis
    by (auto simp: KMeans_fit_predict_def KMeans_new_def)
next
  case (Inr f)
  with assms
  have "repetitions env ''k-means'' seed X k rest (cl @ [kmeans_labels env f])
          (Some \<lparr>n_clusters = k, km_random_state = seed + i, fitted = Some f\<rparr>)
          (tr @ [(k, seed + i)]) = (r, tr')"
    by (simp add: KMeans_fit_predict_def KMeans_new_def)
  from repetitions_trace [OF this] show ?thesis by auto
qed

lemma evaluate_k_trace:
  assumes "evaluate_k env a X k mdl tr = (r, tr')"
  shows "\<exists>t. tr' = tr @ t"
    and "algorithm a = ''k-means'' \<Longrightarrow> 1 \<le> n_repetitions a \<Longrightarrow>
         \<exists>t. tr' = tr @ (k, random_state a) # t"
proof -
  let ?n = "n_repetitions a"
  obtain r0 t0 where rep:
    "repetitions env (algorithm a) (random_state a) X k (py_range 0 ?n) [] mdl tr = (r0, t0)"
    by fastforce
  with assms have t0: "t0 = tr'"
    by (auto simp: evaluate_k_def split: sum.splits prod.splits)
  from repetitions_trace [OF rep] t0 show "\<exists>t. tr' = tr @ t" by simp
  show "\<exists>t. tr' = tr @ (k, random_state a) # t" if "algorithm a = ''k-means''" "1 \<le> ?n"
  proof -
    have "py_range 0 ?n = 0 # py_range 1 ?n"
      using that(2) by (simp add: py_range_def upto_rec1)
    with rep that(1) have
      "repetitions env ''k-means'' (random_state a) X k (0 # py_range 1 ?n) [] mdl tr = (r0, t0)"
      by simp
    from repetitions_trace_first [OF this] t0 show ?thesis by simp
  qed
qed

lemma candidates_trace:
  "candidates env X ks a loc tr = (err, a', loc', tr') \<Longrightarrow> \<exists>t. tr' = tr @ t"
proof (induction ks arbitrary: a loc tr)
  case Nil
  then show ?case by simp
next
  case (Cons k rest)
  obtain r t where ev: "evaluate_k env a X k (model loc) tr = (r, t)" by fastforce
  from evaluate_k_trace(1) [OF ev] obtain t1 where t1: "t = tr @ t1" by blast
  show ?case
  proof (cases r)
    case (Inl e)
    with ev Cons.prems t1 show ?thesis by (auto simp: candidates_Cons_Inl)
  next
    case (Inr p)
    then obtain avg m' where "r = Inr (avg, m')" by (cases p) simp
    with ev have ev': "evaluate_k env a X k (model loc) tr = (Inr (avg, m'), t)" by simp
    have "candidates env X rest (a\<lparr>SC_scores := AList.update k avg (SC_scores a)\<rparr>)
            (next_locals k avg m' loc) t = (err, a', loc', tr')"
      using Cons.prems candidates_Cons_Inr [OF ev', of rest] by simp
    from Cons.IH [OF this] t1 show ?thesis by auto
  qed
qed

lemma candidates_trace_first:
  assumes "candidates env X (k # rest) a loc tr = (err, a', loc', tr')"
    and "algorithm a = ''k-means''" and "1 \<le> n_repetitions a"
  shows "\<exists>t. tr' = tr @ (k, random_state a) # t"
proof -
  obtain r t where ev: "evaluate_k env a X k (model loc) tr = (r, t)" by fastforce
  from evaluate_k_trace(2) [OF ev assms(2,3)] obtain t1 where t1: "t = tr @ (k, random_state a) # t1"
    by blast
  show ?thesis
  proof (cases r)
    case (Inl e)
    with ev assms(1) t1 show ?thesis by (auto simp: candidates_Cons_Inl)
  next
    case (Inr p)
    then obtain avg m' where "r = Inr (avg, m')" by (cases p) simp
    with ev have ev': "evaluate_k env a X k (model loc) tr = (Inr (avg, m'), t)" by simp
    have "candidates env X rest (a\<lparr>SC_scores := AList.update k avg (SC_scores a)\<rparr>)
            (next_locals k avg m' loc) t = (err, a', loc', tr')"
      using assms(1) candidates_Cons_Inr [OF ev', of rest] by simp
    from candidates_trace [OF this] t1 show ?thesis by auto
  qed
qed

lemma fit_trace_first:
  assumes "k_values a = k # rest" and "algorithm a = ''k-means''" and "1 \<le> n_repetitions a"
  shows "\<exists>t. km_fits (fit env a X) = (k, random_state a) # t"
proof (cases rule: fit_outcome [of env X a])
  case (loop_error e a' loc' tr')
  from candidates_trace_first [of env X k rest a init_locals "[]" "Some e" a' loc' tr']
    loop_error assms
  show ?thesis by simp
next
  case (no_model a' loc' tr')
  from candidates_trace_first [of env X k rest a init_locals "[]" None a' loc' tr']
    no_model assms
  show ?thesis by simp
next
  case (selected a' loc' tr' kb)
  from candidates_trace_first [of env X k rest a init_locals "[]" None a' loc' tr']
    selected(1) assms
  obtain t where "tr' = (k, random_state a) # t" by auto
  with selected(10) show ?thesis by simp
qed

subsection \<open>Where a library exception comes from\<close>

lemma repetitions_library_error:
  "repetitions env alg seed X k is cl mdl tr = (Inl (SklearnError msg), tr') \<Longrightarrow>
   \<exists>pre i post.
     is = pre @ i # post \<and>
     (\<forall>i' \<in> set pre. \<exists>f. kmeans_fit env k (seed + i') X = Inr f) \<and>
     kmeans_fit env k (seed + i) X = Inl msg \<and>
     tr' = tr @ map (\<lambda>i. (k, seed + i)) (pre @ [i])"
proof (induction "is" arbitrary: cl mdl tr)
  case Nil
  then show ?case by simp
next
  case (Cons i rest)
  from Cons.prems have alg: "alg = ''k-means''"
    by (auto split: if_splits)
  show ?case
  proof (cases "kmeans_fit env k (seed + i) X")
    case (Inl msg')
    with Cons.prems alg have "msg' = msg" "tr' = tr @ [(k, seed + i)]"
      by (auto simp: KMeans_fit_predict_def KMeans_new_def)
    with Inl show ?thesis
      by (intro exI [of _ "[]"] exI [of _ i] exI [of _ rest]) simp
  next
    case (Inr f)
    with Cons.prems alg
    have "repetitions env alg seed X k rest (cl @ [kmeans_labels env f])
            (Some \<lparr>n_clusters = k, km_random_state = seed + i, fitted = Some f\<rparr>)
            (tr @ [(k, seed + i)]) = (Inl (SklearnError msg), tr')"
      by (simp add: KMeans_fit_predict_def KMeans_new_def)
    from Cons.IH [OF this] obtain pre j post where
      "rest = pre @ j # post"
      "\<forall>i' \<in> set pre. \<exists>f. kmeans_fit env k (seed + i') X = Inr f"
      "kmeans_fit env k (seed + j) X = Inl msg"
      "tr' = (tr @ [(k, seed + i)]) @ map (\<lambda>i. (k, seed + i)) (pre @ [j])"
      by blast
    with Inr show ?thesis
      by (intro exI [of _ "i # pre"] exI [of _ j] exI [of _ post]) simp
  qed
qed

lemma py_range_split:
  assumes "py_range 0 n = pre @ j # post"
  shows "0 \<le> j \<and> j < n \<and> pre = py_range 0 j \<and> pre @ [j] = py_range 0 (j + 1)"
proof -
  have "j \<in> set (py_range 0 n)" using assms by simp
  then have j: "0 \<le> j" "j \<le> n - 1" by (simp_all add: py_range_def)
  then have split: "[0..n - 1] = [0..j - 1] @ j # [j + 1..n - 1]"
    by (rule upto_split3)
  have "distinct (pre @ j # post)"
    using assms [symmetric] by (simp add: py_range_def)
  then have "j \<notin> set pre" and "j \<notin> set post" by simp_all
  moreover have "pre @ j # post = [0..j - 1] @ j # [j + 1..n - 1]"
    using assms split by (simp add: py_range_def)
  ultimately have pre: "pre = [0..j - 1]"
    using append_Cons_eq_iff [where x = j and xs = pre and ys = post and xs' = "[0..j - 1]"
        and ys' = "[j + 1..n - 1]"] by blast
  have "[0..j] = [0..j - 1] @ [j]"
    using j(1) by (simp add: upto_rec2)
  with pre j show ?thesis by (simp add: py_range_def)
qed

lemma evaluate_k_library_error:
  assumes "evaluate_k env a X k mdl tr = (Inl (SklearnError msg), tr')"
  shows "\<exists>j. 0 \<le> j \<and> j < n_repetitions a \<and>
             (\<forall>i \<in> set (py_range 0 j). \<exists>f. kmeans_fit env k (random_state a + i) X = Inr f) \<and>
             kmeans_fit env k (random_state a + j) X = Inl msg \<and>
             tr' = tr @ map (\<lambda>i. (k, random_state a + i)) (py_range 0 (j + 1))"
proof -
  let ?n = "n_repetitions a"
  obtain r t where rep:
    "repetitions env (algorithm a) (random_state a) X k (py_range 0 ?n) [] mdl tr = (r, t)"
    by fastforce
  have "r = Inl (SklearnError msg) \<and> t = tr'"
  proof (cases r)
    case (Inl e)
    with rep assms show ?thesis by (simp add: evaluate_k_def)
  next
    case (Inr p)
    then obtain cl m' where p: "r = Inr (cl, m')" by (cases p) simp
    with rep assms have
      out: "outer_pairs env (metric a) cl ?n (py_range 0 ?n) [] = Inl (SklearnError msg)"
      by (auto simp: evaluate_k_def split: sum.splits)
    have "evaluate_k env a X k mdl tr = (Inl (SklearnError msg), tr')" by (rule assms)
    from evaluate_k_Inl [OF this] obtain i msg' where
      "i \<in> set (py_range 0 ?n)" "kmeans_fit env k (random_state a + i) X = Inl msg'"
      by auto
    moreover from repetitions_Inr [of env "algorithm a" "random_state a" X k "py_range 0 ?n" "[]" mdl tr cl m' t]
      rep p
    have "\<forall>i \<in> set (py_range 0 ?n). \<exists>f. kmeans_fit env k (random_state a + i) X = Inr f"
      by (auto dest: list_all2_fits)
    ultimately show ?thesis by auto
  qed
  with rep have
    "repetitions env (algorithm a) (random_state a) X k (py_range 0 ?n) [] mdl tr
       = (Inl (SklearnError msg), tr')"
    by simp
  from repetitions_library_error [OF this] obtain pre j post where
    split: "py_range 0 ?n = pre @ j # post" and
    ok: "\<forall>i' \<in> set pre. \<exists>f. kmeans_fit env k (random_state a + i') X = Inr f" and
    bad: "kmeans_fit env k (random_state a + j) X = Inl msg" and
    tr': "tr' = tr @ map (\<lambda>i. (k, random_state a + i)) (pre @ [j])"
    by blast
  from py_range_split [OF split] have
    j: "0 \<le> j" "j < ?n" and pre: "pre = py_range 0 j" and snoc: "pre @ [j] = py_range 0 (j + 1)"
    by blast+
  have "tr' = tr @ map (\<lambda>i. (k, random_state a + i)) (py_range 0 (j + 1))"
    using tr' snoc by (simp del: map_append)
  with j ok bad pre show ?thesis
    by (intro exI [of _ j]) simp
qed

lemma candidates_library_error:
  "candidates env X ks a loc tr = (Some (SklearnError msg), a', loc', tr') \<Longrightarrow>
   \<exists>pre k post j.
     ks = pre @ k # post \<and> 0 \<le> j \<and> j < n_repetitions a \<and>
     (\<forall>i \<in> set (py_range 0 j). \<exists>f. kmeans_fit env k (random_state a + i) X = Inr f) \<and>
     kmeans_fit env k (random_state a + j) X = Inl msg \<and>
     tr' = tr @ evaluation_fits a pre @ map (\<lambda>i. (k, random_state a + i)) (py_range 0 (j + 1))"
proof (induction ks arbitrary: a loc tr)
  case Nil
  then show ?case by simp
next
  case (Cons k rest)
  obtain r t where ev: "evaluate_k env a X k (model loc) tr = (r, t)" by fastforce
  show ?case
  proof (cases r)
    case (Inl e)
    with ev Cons.prems have "evaluate_k env a X k (model loc) tr = (Inl (SklearnError msg), tr')"
      by (simp add: candidates_Cons_Inl)
    from evaluate_k_library_error [OF this] obtain j where
      "0 \<le> j" "j < n_repetitions a"
      "\<forall>i \<in> set (py_range 0 j). \<exists>f. kmeans_fit env k (random_state a + i) X = Inr f"
      "kmeans_fit env k (random_state a + j) X = Inl msg"
      "tr' = tr @ map (\<lambda>i. (k, random_state a + i)) (py_range 0 (j + 1))"
      by blast
    then show ?thesis
      by (intro exI [of _ "[]"] exI [of _ k] exI [of _ rest] exI [of _ j])
         (simp add: evaluation_fits_def)
  next
    case (Inr p)
    then obtain avg m' where "r = Inr (avg, m')" by (cases p) simp
    with ev have ev': "evaluate_k env a X k (model loc) tr = (Inr (avg, m'), t)" by simp
    let ?a1 = "a\<lparr>SC_scores := AList.update k avg (SC_scores a)\<rparr>"
    have "candidates env X rest ?a1 (next_locals k avg m' loc) t = (Some (SklearnError msg), a', loc', tr')"
      using Cons.prems candidates_Cons_Inr [OF ev', of rest] by simp
    from Cons.IH [OF this] obtain pre k' post j where
      "rest = pre @ k' # post" "0 \<le> j" "j < n_repetitions a"
      "\<forall>i \<in> set (py_range 0 j). \<exists>f. kmeans_fit env k' (random_state a + i) X = Inr f"
      "kmeans_fit env k' (random_state a + j) X = Inl msg"
      "tr' = t @ evaluation_fits a pre @ map (\<lambda>i. (k', random_state a + i)) (py_range 0 (j + 1))"
      by auto
    moreover have "t = tr @ evaluation_fits a [k]"
      by (rule evaluate_k_success(2) [OF ev'])
    ultimately show ?thesis
      using evaluation_fits_Cons [of a k pre]
      by (intro exI [of _ "k # pre"] exI [of _ k'] exI [of _ post] exI [of _ j]) simp
  qed
qed

lemma fit_library_error:
  assumes "raised (fit env a X) = Some (SklearnError msg)"
  shows "\<exists>pre k post j.
     k_values a = pre @ k # post \<and> 0 \<le> j \<and> j < n_repetitions a \<and>
     (\<forall>i \<in> set (py_range 0 j). \<exists>f. kmeans_fit env k (random_state a + i) X = Inr f) \<and>
     kmeans_fit env k (random_state a + j) X = Inl msg \<and>
     km_fits (fit env a X) =
       evaluation_fits a pre @ map (\<lambda>i. (k, random_state a + i)) (py_range 0 (j + 1))"
proof (cases rule: fit_outcome [of env X a])
  case (loop_error e a' loc' tr')
  with assms have "candidates env X (k_values a) a init_locals [] = (Some (SklearnError msg), a', loc', tr')"
    by simp
  from candidates_library_error [OF this] loop_error(2) show ?thesis by simp
next
  case (no_model a' loc' tr')
  with assms show ?thesis by simp
next
  case (selected a' loc' tr' kb)
  with assms show ?thesis by simp
qed

section \<open>The claims\<close>

text \<open>
  Claim C1. \<^verbatim>\<open>predict\<close> before \<^verbatim>\<open>fit\<close> raises \<^verbatim>\<open>NotFittedError\<close>, and after a
  successful \<^verbatim>\<open>fit\<close> it returns one label per row. The code does the first and not the
  second: \<^verbatim>\<open>check_is_fitted\<close> is asked for the attribute \<^verbatim>\<open>best_model\<close>, while
  \<^verbatim>\<open>fit\<close> sets \<^verbatim>\<open>best_model_\<close>, so the check fails on every object. Here
  \<^verbatim>\<open>fit\<close> completes on six points with candidates 2 and 3, and \<^verbatim>\<open>predict\<close> on
  the fitted object raises \<^verbatim>\<open>NotFittedError\<close>.
\<close>

theorem predict_after_fit_raises:
  "raised (fit toy (init [2, 3] 2 ''k-means'' ''adjusted_rand'' 42) blobs) = None \<and>
   SC_best_model (self_after (fit toy (init [2, 3] 2 ''k-means'' ''adjusted_rand'' 42) blobs)) \<noteq> None \<and>
   predict toy (self_after (fit toy (init [2, 3] 2 ''k-means'' ''adjusted_rand'' 42) blobs)) blobs =
     Inl NotFittedError"
proof -
  have "raised (fit toy (init [2, 3] 2 ''k-means'' ''adjusted_rand'' 42) blobs) = None"
    by code_simp
  moreover have "SC_best_model (self_after (fit toy (init [2, 3] 2 ''k-means'' ''adjusted_rand'' 42) blobs)) \<noteq> None"
    by code_simp
  ultimately show ?thesis by (simp add: predict_not_fitted)
qed

text \<open>
  Claim C2. As stated (one entry per element of \<^verbatim>\<open>k_values\<close>, duplicates included) the
  claim fails: the table is a dictionary keyed by \<open>k\<close>, so two equal candidates share one
  entry.
\<close>

theorem score_table_duplicates_counterexample:
  "raised (fit toy (init [2, 2] 2 ''k-means'' ''rand'' 42) blobs) = None \<and>
   map fst (SC_scores (self_after (fit toy (init [2, 2] 2 ''k-means'' ''rand'' 42) blobs))) = [2] \<and>
   map fst (SC_scores (self_after (fit toy (init [2, 2] 2 ''k-means'' ''rand'' 42) blobs))) \<noteq>
     k_values (init [2, 2] 2 ''k-means'' ''rand'' 42 :: (int list \<times> int list) StableClustering)"
proof -
  have "raised (fit toy (init [2, 2] 2 ''k-means'' ''rand'' 42) blobs) = None"
    by code_simp
  moreover have "map fst (SC_scores (self_after (fit toy (init [2, 2] 2 ''k-means'' ''rand'' 42) blobs))) = [2]"
    by code_simp
  ultimately show ?thesis by (simp add: init_def)
qed

text \<open>
  Claim C2, amended. After \<^verbatim>\<open>fit\<close> completes on an estimator whose table was empty
  (as the constructor leaves it), the keys of the table are the distinct values of
  \<^verbatim>\<open>k_values\<close>, each at the place of its first occurrence: when \<^verbatim>\<open>k_values\<close> has
  no duplicates, one entry per element in the same order. Every element, duplicates
  included, is evaluated on its own: the clustering fits executed are the
  \<open>n_repetitions\<close> fits of each element of \<^verbatim>\<open>k_values\<close> in turn, followed by the
  refit.
\<close>

theorem fit_score_table_keys:
  assumes "raised (fit env a X) = None" and "SC_scores a = []"
  shows "map fst (SC_scores (self_after (fit env a X))) = rev (remdups (rev (k_values a))) \<and>
         (distinct (k_values a) \<longrightarrow> map fst (SC_scores (self_after (fit env a X))) = k_values a) \<and>
         (\<exists>k. km_fits (fit env a X) =
                concat (map (\<lambda>k. map (\<lambda>i. (k, random_state a + i)) (py_range 0 (n_repetitions a)))
                          (k_values a))
                @ [(k, random_state a + (n_repetitions a - 1))])"
proof -
  from assms(1) obtain k where k:
    "SC_scores (self_after (fit env a X)) =
       dict_updates (map (\<lambda>k. (k, candidate_score env a X k)) (k_values a)) (SC_scores a)"
    "km_fits (fit env a X) =
       evaluation_fits a (k_values a) @ [(k, random_state a + (n_repetitions a - 1))]"
    by (rule fit_completed)
  have keys: "map fst (SC_scores (self_after (fit env a X))) = rev (remdups (rev (k_values a)))"
    using k(1) assms(2) by (simp add: keys_dict_updates comp_def)
  moreover have "rev (remdups (rev (k_values a))) = k_values a" if "distinct (k_values a)"
    using that by (simp add: distinct_remdups_id)
  ultimately show ?thesis
    using k(2) by (auto simp: evaluation_fits_def)
qed

theorem fit_score_table_keys_witness:
  "raised (fit toy (init [3, 2, 3] 2 ''k-means'' ''rand'' 42) blobs) = None \<and>
   SC_scores (init [3, 2, 3] 2 ''k-means'' ''rand'' 42 :: (int list \<times> int list) StableClustering) = [] \<and>
   map fst (SC_scores (self_after (fit toy (init [3, 2, 3] 2 ''k-means'' ''rand'' 42) blobs))) = [3, 2] \<and>
   km_fits (fit toy (init [3, 2, 3] 2 ''k-means'' ''rand'' 42) blobs) =
     [(3, 42), (3, 43), (2, 42), (2, 43), (3, 42), (3, 43), (3, 43)]"
proof -
  have h: "raised (fit toy (init [3, 2, 3] 2 ''k-means'' ''rand'' 42) blobs) = None"
    by code_simp
  have e: "SC_scores (init [3, 2, 3] 2 ''k-means'' ''rand'' 42 :: (int list \<times> int list) StableClustering) = []"
    by (simp add: init_def)
  have t: "km_fits (fit toy (init [3, 2, 3] 2 ''k-means'' ''rand'' 42) blobs) =
     [(3, 42), (3, 43), (2, 42), (2, 43), (3, 42), (3, 43), (3, 43)]"
    by code_simp
  from fit_score_table_keys [OF h e] h e t show ?thesis
    by (simp add: init_def)
qed

text \<open>
  Claim C3. As stated the claim fails for the metric: the metric name is looked at inside
  the loop over pairs, which runs after the repetitions of the first candidate. Here an
  unsupported metric is reported after two clustering fits.
\<close>

theorem invalid_metric_after_clustering_counterexample:
  "raised (fit toy (init [2, 3] 2 ''k-means'' ''bogus'' 42) blobs) = Some InvalidMetric \<and>
   km_fits (fit toy (init [2, 3] 2 ''k-means'' ''bogus'' 42) blobs) = [(2, 42), (2, 43)]"
proof -
  have "raised (fit toy (init [2, 3] 2 ''k-means'' ''bogus'' 42) blobs) = Some InvalidMetric"
    by code_simp
  moreover have "km_fits (fit toy (init [2, 3] 2 ''k-means'' ''bogus'' 42) blobs) = [(2, 42), (2, 43)]"
    by code_simp
  ultimately show ?thesis by simp
qed

text \<open>
  Claim C3, amended. With at least one candidate and at least one repetition, an
  unsupported algorithm name makes \<^verbatim>\<open>fit\<close> raise the algorithm error at once, with no
  clustering fit executed and the object unchanged; whenever \<^verbatim>\<open>fit\<close> raises the
  algorithm error, no clustering fit has been executed. The metric error is raised only
  after clustering work: whenever \<^verbatim>\<open>fit\<close> raises it, the algorithm is supported,
  \<open>n_repetitions\<close> is at least 2 and at least \<open>n_repetitions\<close> clustering fits have been
  executed; and with a supported algorithm, an unsupported metric, at least two
  repetitions and a first candidate whose clustering fits all succeed, \<^verbatim>\<open>fit\<close> raises
  the metric error after exactly the \<open>n_repetitions\<close> fits of that candidate.
\<close>

theorem fit_invalid_names:
  "(algorithm a \<noteq> ''k-means'' \<and> k_values a \<noteq> [] \<and> 1 \<le> n_repetitions a \<longrightarrow>
      fit env a X = \<lparr>raised = Some InvalidAlgorithm, self_after = a, km_fits = []\<rparr>) \<and>
   (raised (fit env a X) = Some InvalidAlgorithm \<longrightarrow> km_fits (fit env a X) = []) \<and>
   (raised (fit env a X) = Some InvalidMetric \<longrightarrow>
      algorithm a = ''k-means'' \<and> 2 \<le> n_repetitions a \<and>
      nat (n_repetitions a) \<le> length (km_fits (fit env a X))) \<and>
   (algorithm a = ''k-means'' \<and> metric a \<noteq> ''rand'' \<and> metric a \<noteq> ''adjusted_rand'' \<and>
    2 \<le> n_repetitions a \<and> k_values a = k # rest \<and>
    (\<forall>i \<in> set (py_range 0 (n_repetitions a)). \<exists>f. kmeans_fit env k (random_state a + i) X = Inr f) \<longrightarrow>
      fit env a X =
        \<lparr>raised = Some InvalidMetric, self_after = a,
         km_fits = map (\<lambda>i. (k, random_state a + i)) (py_range 0 (n_repetitions a))\<rparr>)"
proof (intro conjI impI)
  assume h: "algorithm a \<noteq> ''k-means'' \<and> k_values a \<noteq> [] \<and> 1 \<le> n_repetitions a"
  then obtain k0 rest0 where "k_values a = k0 # rest0" by (cases "k_values a") auto
  with h have "candidates env X (k_values a) a init_locals [] = (Some InvalidAlgorithm, a, init_locals, [])"
    by (simp add: candidates_invalid_algorithm)
  then show "fit env a X = \<lparr>raised = Some InvalidAlgorithm, self_after = a, km_fits = []\<rparr>"
    by (rule fit_loop_error)
next
  assume r: "raised (fit env a X) = Some InvalidAlgorithm"
  show "km_fits (fit env a X) = []"
  proof (cases rule: fit_outcome [of env X a])
    case (loop_error e a' loc' tr')
    with r have c: "candidates env X (k_values a) a init_locals [] = (Some InvalidAlgorithm, a', loc', tr')"
      by simp
    from candidates_error [OF c] have "algorithm a \<noteq> ''k-means''" by auto
    from candidates_no_clustering [OF this c] loop_error(2) show ?thesis by simp
  next
    case (no_model a' loc' tr')
    with r show ?thesis by simp
  next
    case (selected a' loc' tr' kb)
    with r show ?thesis by simp
  qed
next
  assume r: "raised (fit env a X) = Some InvalidMetric"
  have "algorithm a = ''k-means'' \<and> 2 \<le> n_repetitions a \<and>
        nat (n_repetitions a) \<le> length (km_fits (fit env a X))"
  proof (cases rule: fit_outcome [of env X a])
    case (loop_error e a' loc' tr')
    with r have c: "candidates env X (k_values a) a init_locals [] = (Some InvalidMetric, a', loc', tr')"
      by simp
    from candidates_error [OF c] loop_error(2) show ?thesis by auto
  next
    case (no_model a' loc' tr')
    with r show ?thesis by simp
  next
    case (selected a' loc' tr' kb)
    with r show ?thesis by simp
  qed
  then show "algorithm a = ''k-means''" and "2 \<le> n_repetitions a"
    and "nat (n_repetitions a) \<le> length (km_fits (fit env a X))"
    by simp_all
next
  assume h: "algorithm a = ''k-means'' \<and> metric a \<noteq> ''rand'' \<and> metric a \<noteq> ''adjusted_rand'' \<and>
    2 \<le> n_repetitions a \<and> k_values a = k # rest \<and>
    (\<forall>i \<in> set (py_range 0 (n_repetitions a)). \<exists>f. kmeans_fit env k (random_state a + i) X = Inr f)"
  then have "evaluate_k env a X k (model init_locals) [] = (Inl InvalidMetric, [] @ evaluation_fits a [k])"
    by (intro evaluate_k_invalid_metric) simp_all
  then have "candidates env X (k # rest) a init_locals [] =
               (Some InvalidMetric, a, init_locals, [] @ evaluation_fits a [k])"
    by (rule candidates_Cons_Inl)
  with h have "candidates env X (k_values a) a init_locals [] =
                 (Some InvalidMetric, a, init_locals,
                  map (\<lambda>i. (k, random_state a + i)) (py_range 0 (n_repetitions a)))"
    by (simp add: evaluation_fits_def)
  then show "fit env a X =
        \<lparr>raised = Some InvalidMetric, self_after = a,
         km_fits = map (\<lambda>i. (k, random_state a + i)) (py_range 0 (n_repetitions a))\<rparr>"
    by (rule fit_loop_error)
qed

theorem fit_invalid_names_witness:
  "fit toy (init [2, 3] 2 ''bogus'' ''rand'' 42) blobs =
     \<lparr>raised = Some InvalidAlgorithm, self_after = init [2, 3] 2 ''bogus'' ''rand'' 42, km_fits = []\<rparr> \<and>
   fit toy (init [2, 3] 2 ''k-means'' ''bogus'' 42) blobs =
     \<lparr>raised = Some InvalidMetric, self_after = init [2, 3] 2 ''k-means'' ''bogus'' 42,
      km_fits = [(2, 42), (2, 43)]\<rparr>"
proof -
  let ?a = "init [2, 3] 2 ''bogus'' ''rand'' 42 :: (int list \<times> int list) StableClustering"
  let ?b = "init [2, 3] 2 ''k-means'' ''bogus'' 42 :: (int list \<times> int list) StableClustering"
  have a: "algorithm ?a \<noteq> ''k-means'' \<and> k_values ?a \<noteq> [] \<and> 1 \<le> n_repetitions ?a"
    by (simp add: init_def)
  have fits: "\<forall>i \<in> set (py_range 0 (n_repetitions ?b)). \<exists>f. kmeans_fit toy 2 (random_state ?b + i) blobs = Inr f"
    by (simp add: init_def py_range_def upto.simps toy_def toy_fit_def blobs_def)
  have b: "algorithm ?b = ''k-means'' \<and> metric ?b \<noteq> ''rand'' \<and> metric ?b \<noteq> ''adjusted_rand'' \<and>
    2 \<le> n_repetitions ?b \<and> k_values ?b = 2 # [3] \<and>
    (\<forall>i \<in> set (py_range 0 (n_repetitions ?b)). \<exists>f. kmeans_fit toy 2 (random_state ?b + i) blobs = Inr f)"
    using fits by (simp add: init_def)
  have r: "map (\<lambda>i. (2 :: int, random_state ?b + i)) (py_range 0 (n_repetitions ?b)) = [(2, 42), (2, 43)]"
    by (simp add: init_def py_range_def upto.simps)
  from fit_invalid_names [where a = ?a and env = toy and X = blobs] a
  have 1: "fit toy ?a blobs = \<lparr>raised = Some InvalidAlgorithm, self_after = ?a, km_fits = []\<rparr>"
    by blast
  from fit_invalid_names [where a = ?b and env = toy and X = blobs and k = 2 and rest = "[3]"] b
  have "fit toy ?b blobs =
          \<lparr>raised = Some InvalidMetric, self_after = ?b,
           km_fits = map (\<lambda>i. (2, random_state ?b + i)) (py_range 0 (n_repetitions ?b))\<rparr>"
    by blast
  with r have 2: "fit toy ?b blobs =
          \<lparr>raised = Some InvalidMetric, self_after = ?b, km_fits = [(2, 42), (2, 43)]\<rparr>"
    by simp
  from 1 2 show ?thesis by simp
qed

text \<open>
  Claim C4. As stated the claim fails: \<^verbatim>\<open>fit\<close> validates neither \<open>n_repetitions\<close>
  nor the candidates. With one repetition it runs one clustering fit per candidate and
  then fails with \<^verbatim>\<open>AttributeError\<close>; a candidate larger than the number of rows is
  handed to the clustering library when its turn comes, after the clustering fits of the
  candidate before it, and the library's own exception is what the caller sees.
\<close>

theorem no_configuration_check_counterexample:
  "fit toy (init [2, 3] 1 ''k-means'' ''rand'' 42) blobs =
     \<lparr>raised = Some AttributeError,
      self_after = (init [2, 3] 1 ''k-means'' ''rand'' 42)
                     \<lparr>SC_scores := [(2, NaN), (3, NaN)], SC_best_k := Some None\<rparr>,
      km_fits = [(2, 42), (3, 42)]\<rparr> \<and>
   fit toy (init [2, 7] 2 ''k-means'' ''rand'' 42) blobs =
     \<lparr>raised = Some (SklearnError ''n_clusters''),
      self_after = (init [2, 7] 2 ''k-means'' ''rand'' 42)\<lparr>SC_scores := [(2, Finite (2 / 3))]\<rparr>,
      km_fits = [(2, 42), (2, 43), (7, 42)]\<rparr>"
proof -
  have "fit toy (init [2, 3] 1 ''k-means'' ''rand'' 42) blobs =
     \<lparr>raised = Some AttributeError,
      self_after = (init [2, 3] 1 ''k-means'' ''rand'' 42)
                     \<lparr>SC_scores := [(2, NaN), (3, NaN)], SC_best_k := Some None\<rparr>,
      km_fits = [(2, 42), (3, 42)]\<rparr>"
    by code_simp
  moreover have "fit toy (init [2, 7] 2 ''k-means'' ''rand'' 42) blobs =
     \<lparr>raised = Some (SklearnError ''n_clusters''),
      self_after = (init [2, 7] 2 ''k-means'' ''rand'' 42)\<lparr>SC_scores := [(2, Finite (2 / 3))]\<rparr>,
      km_fits = [(2, 42), (2, 43), (7, 42)]\<rparr>"
    by code_simp
  ultimately show ?thesis by simp
qed

text \<open>
  Claim C4, amended. \<^verbatim>\<open>fit\<close> checks neither \<open>n_repetitions\<close> nor the candidates
  before it starts. With \<open>n_repetitions < 2\<close> it never completes and never stores a model:
  it ends with \<^verbatim>\<open>AttributeError\<close> (no candidate is ever selected, the mean of no
  scores being not-a-number), or earlier with the algorithm error or an exception of the
  clustering library. With \<open>n_repetitions = 1\<close>, a supported algorithm and clustering fits
  that succeed, it executes one clustering fit per candidate, records not-a-number for each
  and then raises \<^verbatim>\<open>AttributeError\<close>. With a supported algorithm and at least one
  repetition, the first thing \<^verbatim>\<open>fit\<close> does is a clustering fit at the first candidate,
  whatever its value; if the library rejects it, the library's exception is what
  \<^verbatim>\<open>fit\<close> raises. A candidate is only ever rejected by the library, inside a
  clustering fit, when its turn comes: whenever \<^verbatim>\<open>fit\<close> raises a library
  exception, \<^verbatim>\<open>k_values\<close> splits into the candidates before, one candidate \<open>k'\<close>
  and the rest, the exception is the one the clustering fit of \<open>k'\<close> raised at some
  repetition \<open>j\<close>, the earlier repetitions of \<open>k'\<close> succeeded, and the clustering fits
  executed are all the \<open>n_repetitions\<close> fits of every candidate before \<open>k'\<close>, in order,
  followed by the fits of \<open>k'\<close> up to and including repetition \<open>j\<close>.
\<close>

theorem fit_unchecked_configuration:
  "(n_repetitions a < 2 \<longrightarrow>
      (\<exists>e. raised (fit env a X) = Some e \<and>
           (e = AttributeError \<or> e = InvalidAlgorithm \<or> (\<exists>msg. e = SklearnError msg))) \<and>
      SC_best_model (self_after (fit env a X)) = SC_best_model a) \<and>
   (n_repetitions a = 1 \<and> algorithm a = ''k-means'' \<and>
    (\<forall>k \<in> set (k_values a). \<exists>f. kmeans_fit env k (random_state a) X = Inr f) \<longrightarrow>
      raised (fit env a X) = Some AttributeError \<and>
      km_fits (fit env a X) = map (\<lambda>k. (k, random_state a)) (k_values a) \<and>
      (\<forall>k \<in> set (k_values a). map_of (SC_scores (self_after (fit env a X))) k = Some NaN)) \<and>
   (algorithm a = ''k-means'' \<and> 1 \<le> n_repetitions a \<and> k_values a = k # rest \<longrightarrow>
      (\<exists>t. km_fits (fit env a X) = (k, random_state a) # t) \<and>
      (\<forall>msg. kmeans_fit env k (random_state a) X = Inl msg \<longrightarrow>
         fit env a X = \<lparr>raised = Some (SklearnError msg), self_after = a,
                         km_fits = [(k, random_state a)]\<rparr>)) \<and>
   (\<forall>msg. raised (fit env a X) = Some (SklearnError msg) \<longrightarrow>
      km_fits (fit env a X) \<noteq> [] \<and>
      (\<exists>k' \<in> set (k_values a). \<exists>i \<in> set (py_range 0 (n_repetitions a)).
         kmeans_fit env k' (random_state a + i) X = Inl msg) \<and>
      (\<exists>pre k' post j.
         k_values a = pre @ k' # post \<and> 0 \<le> j \<and> j < n_repetitions a \<and>
         (\<forall>i \<in> set (py_range 0 j). \<exists>f. kmeans_fit env k' (random_state a + i) X = Inr f) \<and>
         kmeans_fit env k' (random_state a + j) X = Inl msg \<and>
         km_fits (fit env a X) =
           concat (map (\<lambda>k. map (\<lambda>i. (k, random_state a + i)) (py_range 0 (n_repetitions a))) pre)
           @ map (\<lambda>i. (k', random_state a + i)) (py_range 0 (j + 1))))"
proof (intro conjI impI allI)
  assume n: "n_repetitions a < 2"
  have "(\<exists>e. raised (fit env a X) = Some e \<and>
           (e = AttributeError \<or> e = InvalidAlgorithm \<or> (\<exists>msg. e = SklearnError msg))) \<and>
        SC_best_model (self_after (fit env a X)) = SC_best_model a"
  proof (cases rule: fit_outcome [of env X a])
    case (loop_error e a' loc' tr')
    from candidates_error [OF loop_error(1)] n
    have "e = InvalidAlgorithm \<or> (\<exists>msg. e = SklearnError msg)" by auto
    moreover from candidates_state [OF loop_error(1)] have "SC_best_model a' = SC_best_model a"
      by auto
    ultimately show ?thesis using loop_error(2) by simp
  next
    case (no_model a' loc' tr')
    from candidates_state [OF no_model(1)] have "SC_best_model a' = SC_best_model a"
      by auto
    with no_model(4) show ?thesis by simp
  next
    case (selected a' loc' tr' kb)
    with n show ?thesis by simp
  qed
  then show "\<exists>e. raised (fit env a X) = Some e \<and>
           (e = AttributeError \<or> e = InvalidAlgorithm \<or> (\<exists>msg. e = SklearnError msg))"
    and "SC_best_model (self_after (fit env a X)) = SC_best_model a"
    by simp_all
next
  assume h: "n_repetitions a = 1 \<and> algorithm a = ''k-means'' \<and>
    (\<forall>k \<in> set (k_values a). \<exists>f. kmeans_fit env k (random_state a) X = Inr f)"
  then have range: "py_range 0 (n_repetitions a) = [0]"
    by (simp add: py_range_def)
  have "raised (fit env a X) = Some AttributeError \<and>
      km_fits (fit env a X) = map (\<lambda>k. (k, random_state a)) (k_values a) \<and>
      (\<forall>k \<in> set (k_values a). map_of (SC_scores (self_after (fit env a X))) k = Some NaN)"
  proof (cases rule: fit_outcome [of env X a])
    case (loop_error e a' loc' tr')
    from candidates_error [OF loop_error(1)] h range show ?thesis by auto
  next
    case (no_model a' loc' tr')
    from candidates_None_facts [OF no_model(1)] range
    have tr': "tr' = map (\<lambda>k. (k, random_state a)) (k_values a)"
      by (simp add: evaluation_fits_def comp_def)
    from candidates_state [OF no_model(1)] have
      "a' = a\<lparr>SC_scores := dict_updates (map (\<lambda>k. (k, candidate_score env a X k)) (k_values a))
                                (SC_scores a)\<rparr>"
      by auto
    moreover have "candidate_score env a X k' = NaN" for k'
      using h by (simp add: candidate_score_few)
    ultimately have "\<forall>k \<in> set (k_values a). map_of (SC_scores a') k = Some NaN"
      by (simp add: map_of_dict_updates_graph)
    with no_model(4) tr' show ?thesis by simp
  next
    case (selected a' loc' tr' kb)
    with h show ?thesis by simp
  qed
  then show "raised (fit env a X) = Some AttributeError"
    and "km_fits (fit env a X) = map (\<lambda>k. (k, random_state a)) (k_values a)"
    and "\<forall>k \<in> set (k_values a). map_of (SC_scores (self_after (fit env a X))) k = Some NaN"
    by simp_all
next
  assume h: "algorithm a = ''k-means'' \<and> 1 \<le> n_repetitions a \<and> k_values a = k # rest"
  then show "\<exists>t. km_fits (fit env a X) = (k, random_state a) # t"
    by (intro fit_trace_first) simp_all
next
  fix msg
  assume h: "algorithm a = ''k-means'' \<and> 1 \<le> n_repetitions a \<and> k_values a = k # rest"
    and bad: "kmeans_fit env k (random_state a) X = Inl msg"
  from h have "py_range 0 (n_repetitions a) = 0 # py_range 1 (n_repetitions a)"
    by (simp add: py_range_def upto_rec1)
  with h bad have "evaluate_k env a X k (model init_locals) [] =
                     (Inl (SklearnError msg), [(k, random_state a)])"
    by (simp add: evaluate_k_def KMeans_fit_predict_def KMeans_new_def)
  then have "candidates env X (k # rest) a init_locals [] =
               (Some (SklearnError msg), a, init_locals, [(k, random_state a)])"
    by (rule candidates_Cons_Inl)
  with h have "candidates env X (k_values a) a init_locals [] =
               (Some (SklearnError msg), a, init_locals, [(k, random_state a)])"
    by simp
  then show "fit env a X = \<lparr>raised = Some (SklearnError msg), self_after = a,
                         km_fits = [(k, random_state a)]\<rparr>"
    by (rule fit_loop_error)
next
  fix msg
  assume r: "raised (fit env a X) = Some (SklearnError msg)"
  from fit_library_error [OF r] obtain pre k' post j where L:
    "k_values a = pre @ k' # post" "0 \<le> j" "j < n_repetitions a"
    "\<forall>i \<in> set (py_range 0 j). \<exists>f. kmeans_fit env k' (random_state a + i) X = Inr f"
    "kmeans_fit env k' (random_state a + j) X = Inl msg"
    "km_fits (fit env a X) =
       evaluation_fits a pre @ map (\<lambda>i. (k', random_state a + i)) (py_range 0 (j + 1))"
    by blast
  have "py_range 0 (j + 1) \<noteq> []"
    using L(2) by (simp add: py_range_def)
  with L(6) show "km_fits (fit env a X) \<noteq> []" by simp
  have "k' \<in> set (k_values a)" using L(1) by simp
  moreover have "j \<in> set (py_range 0 (n_repetitions a))"
    using L(2,3) by (simp add: py_range_def)
  ultimately show "\<exists>k' \<in> set (k_values a). \<exists>i \<in> set (py_range 0 (n_repetitions a)).
         kmeans_fit env k' (random_state a + i) X = Inl msg"
    using L(5) by blast
  show "\<exists>pre k' post j.
         k_values a = pre @ k' # post \<and> 0 \<le> j \<and> j < n_repetitions a \<and>
         (\<forall>i \<in> set (py_range 0 j). \<exists>f. kmeans_fit env k' (random_state a + i) X = Inr f) \<and>
         kmeans_fit env k' (random_state a + j) X = Inl msg \<and>
         km_fits (fit env a X) =
           concat (map (\<lambda>k. map (\<lambda>i. (k, random_state a + i)) (py_range 0 (n_repetitions a))) pre)
           @ map (\<lambda>i. (k', random_state a + i)) (py_range 0 (j + 1))"
    using L by (intro exI [of _ pre] exI [of _ k'] exI [of _ post] exI [of _ j])
      (simp add: evaluation_fits_def)
qed

theorem fit_unchecked_configuration_witness:
  "raised (fit toy (init [2, 3] 1 ''k-means'' ''rand'' 42) blobs) = Some AttributeError \<and>
   km_fits (fit toy (init [2, 3] 1 ''k-means'' ''rand'' 42) blobs) = [(2, 42), (3, 42)] \<and>
   SC_best_model (self_after (fit toy (init [2, 3] 1 ''k-means'' ''rand'' 42) blobs)) = None \<and>
   fit toy (init [7] 2 ''k-means'' ''rand'' 42) blobs =
     \<lparr>raised = Some (SklearnError ''n_clusters''), self_after = init [7] 2 ''k-means'' ''rand'' 42,
      km_fits = [(7, 42)]\<rparr> \<and>
   raised (fit toy (init [2, 7] 2 ''k-means'' ''rand'' 42) blobs) = Some (SklearnError ''n_clusters'') \<and>
   km_fits (fit toy (init [2, 7] 2 ''k-means'' ''rand'' 42) blobs) \<noteq> [] \<and>
   km_fits (fit toy (init [2, 7] 2 ''k-means'' ''rand'' 42) blobs) = [(2, 42), (2, 43), (7, 42)]"
proof -
  let ?a = "init [2, 3] 1 ''k-means'' ''rand'' 42 :: (int list \<times> int list) StableClustering"
  let ?b = "init [7] 2 ''k-means'' ''rand'' 42 :: (int list \<times> int list) StableClustering"
  let ?c = "init [2, 7] 2 ''k-means'' ''rand'' 42 :: (int list \<times> int list) StableClustering"
  have a1: "n_repetitions ?a < 2" by (simp add: init_def)
  have a2: "n_repetitions ?a = 1 \<and> algorithm ?a = ''k-means'' \<and>
    (\<forall>k \<in> set (k_values ?a). \<exists>f. kmeans_fit toy k (random_state ?a) blobs = Inr f)"
    by (simp add: init_def toy_def toy_fit_def blobs_def)
  have b1: "algorithm ?b = ''k-means'' \<and> 1 \<le> n_repetitions ?b \<and> k_values ?b = 7 # []"
    by (simp add: init_def)
  have b2: "kmeans_fit toy 7 (random_state ?b) blobs = Inl ''n_clusters''"
    by (simp add: init_def toy_def toy_fit_def blobs_def)
  have c1: "raised (fit toy ?c blobs) = Some (SklearnError ''n_clusters'')"
    by code_simp
  have c2: "km_fits (fit toy ?c blobs) = [(2, 42), (2, 43), (7, 42)]"
    by code_simp
  note A = fit_unchecked_configuration [where a = ?a and env = toy and X = blobs and k = 2 and rest = "[3]"]
  note B = fit_unchecked_configuration [where a = ?b and env = toy and X = blobs and k = 7 and rest = "[]"]
  note C = fit_unchecked_configuration [where a = ?c and env = toy and X = blobs and k = 2 and rest = "[7]"]
  from A a1 have 1: "SC_best_model (self_after (fit toy ?a blobs)) = SC_best_model ?a"
    by blast
  from A a2 have 2: "raised (fit toy ?a blobs) = Some AttributeError"
    and 3: "km_fits (fit toy ?a blobs) = map (\<lambda>k. (k, random_state ?a)) (k_values ?a)"
    by blast+
  from B b1 b2 have 4: "fit toy ?b blobs =
      \<lparr>raised = Some (SklearnError ''n_clusters''), self_after = ?b, km_fits = [(7, random_state ?b)]\<rparr>"
    by blast
  from C c1 have 5: "km_fits (fit toy ?c blobs) \<noteq> []"
    by blast
  from 1 2 3 4 5 c1 c2 show ?thesis by (simp add: init_def)
qed

text \<open>
  Claim C5. As stated (maximal among all entries of the score table) the claim fails when
  \<^verbatim>\<open>fit\<close> is called again with other candidates: the table still holds the entries
  of the earlier call, and the comparison only looks at the candidates of the current one.
  Here \<^verbatim>\<open>fit\<close> runs with candidates 2 and 3, \<^verbatim>\<open>k_values\<close> is replaced by the
  single candidate 2 and \<^verbatim>\<open>fit\<close> runs again: it selects 2, whose entry is 2/3, while
  the entry of 3, which is 1, is still in the table.
\<close>

theorem refit_stale_entry_counterexample:
  "raised (fit toy ((self_after (fit toy (init [2, 3] 2 ''k-means'' ''rand'' 42) blobs))\<lparr>k_values := [2]\<rparr>)
             blobs) = None \<and>
   SC_best_k (self_after
     (fit toy ((self_after (fit toy (init [2, 3] 2 ''k-means'' ''rand'' 42) blobs))\<lparr>k_values := [2]\<rparr>)
        blobs)) = Some (Some 2) \<and>
   SC_scores (self_after
     (fit toy ((self_after (fit toy (init [2, 3] 2 ''k-means'' ''rand'' 42) blobs))\<lparr>k_values := [2]\<rparr>)
        blobs)) = [(2, Finite (2 / 3)), (3, Finite 1)] \<and>
   py_gt (Finite 1) (Finite (2 / 3))"
proof -
  have "raised (fit toy ((self_after (fit toy (init [2, 3] 2 ''k-means'' ''rand'' 42) blobs))\<lparr>k_values := [2]\<rparr>)
             blobs) = None"
    by code_simp
  moreover have "SC_best_k (self_after
     (fit toy ((self_after (fit toy (init [2, 3] 2 ''k-means'' ''rand'' 42) blobs))\<lparr>k_values := [2]\<rparr>)
        blobs)) = Some (Some 2)"
    by code_simp
  moreover have "SC_scores (self_after
     (fit toy ((self_after (fit toy (init [2, 3] 2 ''k-means'' ''rand'' 42) blobs))\<lparr>k_values := [2]\<rparr>)
        blobs)) = [(2, Finite (2 / 3)), (3, Finite 1)]"
    by code_simp
  ultimately show ?thesis by simp
qed

text \<open>
  Claim C5, amended. After \<^verbatim>\<open>fit\<close> completes, the selected \<open>k\<close> is one of the
  candidates, its entry of the score table exceeds the sentinel \<open>-1\<close>, no entry of a
  candidate of this call is greater, on a table that was empty when \<^verbatim>\<open>fit\<close>
  started (as the constructor leaves it) no entry at all is greater, and \<open>k\<close> is the
  first candidate, in the order of \<^verbatim>\<open>k_values\<close>, whose entry equals that maximum.
\<close>

theorem fit_selects_first_maximal:
  assumes "raised (fit env a X) = None"
  shows "\<exists>k s. SC_best_k (self_after (fit env a X)) = Some (Some k) \<and>
               k \<in> set (k_values a) \<and>
               map_of (SC_scores (self_after (fit env a X))) k = Some s \<and>
               py_gt s (Finite (- 1)) \<and>
               (\<forall>k' \<in> set (k_values a). \<forall>s'.
                  map_of (SC_scores (self_after (fit env a X))) k' = Some s' \<longrightarrow> \<not> py_gt s' s) \<and>
               (SC_scores a = [] \<longrightarrow>
                  (\<forall>(k', s') \<in> set (SC_scores (self_after (fit env a X))). \<not> py_gt s' s)) \<and>
               find (\<lambda>k'. map_of (SC_scores (self_after (fit env a X))) k' = Some s) (k_values a)
                 = Some k"
proof -
  let ?sc = "candidate_score env a X"
  let ?T = "SC_scores (self_after (fit env a X))"
  from assms obtain k where k:
    "k \<in> set (k_values a)"
    "SC_best_k (self_after (fit env a X)) = Some (Some k)"
    "?T = dict_updates (map (\<lambda>k. (k, ?sc k)) (k_values a)) (SC_scores a)"
    "py_gt (?sc k) (Finite (- 1))"
    "\<forall>k' \<in> set (k_values a). \<not> py_gt (?sc k') (?sc k)"
    "\<forall>k' \<in> set (takeWhile (\<lambda>x. x \<noteq> k) (k_values a)). ?sc k' \<noteq> ?sc k"
    by (rule fit_completed)
  have entry: "map_of ?T k' = Some (?sc k')" if "k' \<in> set (k_values a)" for k'
    using that k(3) by (simp add: map_of_dict_updates_graph)
  have all: "\<forall>(k', s') \<in> set ?T. \<not> py_gt s' (?sc k)" if empty: "SC_scores a = []"
  proof (clarify)
    fix k' s'
    assume in_T: "(k', s') \<in> set ?T" and gt: "py_gt s' (?sc k)"
    have "distinct (map fst ?T)"
      using k(3) empty by (simp add: distinct_dict_updates)
    with in_T have look: "map_of ?T k' = Some s'" by simp
    have "k' \<in> set (k_values a)"
    proof (rule ccontr)
      assume "k' \<notin> set (k_values a)"
      then have "map_of ?T k' = map_of (SC_scores a) k'"
        by (rule fit_frame)
      with look empty show False by simp
    qed
    with look entry k(5) gt show False by auto
  qed
  have first: "find (\<lambda>k'. map_of ?T k' = Some (?sc k)) (k_values a) = Some k"
  proof (rule find_first [OF k(1)])
    show "map_of ?T k = Some (?sc k)" using k(1) by (rule entry)
    show "\<forall>k' \<in> set (takeWhile (\<lambda>x. x \<noteq> k) (k_values a)). \<not> map_of ?T k' = Some (?sc k)"
    proof
      fix k'
      assume k': "k' \<in> set (takeWhile (\<lambda>x. x \<noteq> k) (k_values a))"
      then have "k' \<in> set (k_values a)" by (rule set_takeWhileD [THEN conjunct1])
      with entry k(6) k' show "\<not> map_of ?T k' = Some (?sc k)" by auto
    qed
  qed
  show ?thesis
    using k(1,2,4,5) entry all first
    by (intro exI [of _ k] exI [of _ "?sc k"]) auto
qed

theorem fit_selects_first_maximal_witness:
  "raised (fit toy (init [2, 3, 6] 2 ''k-means'' ''rand'' 42) blobs) = None \<and>
   SC_scores (init [2, 3, 6] 2 ''k-means'' ''rand'' 42 :: (int list \<times> int list) StableClustering) = [] \<and>
   SC_best_k (self_after (fit toy (init [2, 3, 6] 2 ''k-means'' ''rand'' 42) blobs)) = Some (Some 3) \<and>
   SC_scores (self_after (fit toy (init [2, 3, 6] 2 ''k-means'' ''rand'' 42) blobs)) =
     [(2, Finite (2 / 3)), (3, Finite 1), (6, Finite 1)] \<and>
   (\<exists>k s. SC_best_k (self_after (fit toy (init [2, 3, 6] 2 ''k-means'' ''rand'' 42) blobs)) = Some (Some k) \<and>
      find (\<lambda>k'. map_of (SC_scores (self_after (fit toy (init [2, 3, 6] 2 ''k-means'' ''rand'' 42) blobs))) k'
                    = Some s) [2, 3, 6] = Some k)"
proof -
  have h: "raised (fit toy (init [2, 3, 6] 2 ''k-means'' ''rand'' 42) blobs) = None"
    by code_simp
  have e: "SC_scores (init [2, 3, 6] 2 ''k-means'' ''rand'' 42 :: (int list \<times> int list) StableClustering) = []"
    by (simp add: init_def)
  have b: "SC_best_k (self_after (fit toy (init [2, 3, 6] 2 ''k-means'' ''rand'' 42) blobs)) = Some (Some 3)"
    by code_simp
  have t: "SC_scores (self_after (fit toy (init [2, 3, 6] 2 ''k-means'' ''rand'' 42) blobs)) =
             [(2, Finite (2 / 3)), (3, Finite 1), (6, Finite 1)]"
    by code_simp
  have kv: "k_values (init [2, 3, 6] 2 ''k-means'' ''rand'' 42 :: (int list \<times> int list) StableClustering)
              = [2, 3, 6]"
    by (simp add: init_def)
  from fit_selects_first_maximal [OF h] obtain k s where
    "SC_best_k (self_after (fit toy (init [2, 3, 6] 2 ''k-means'' ''rand'' 42) blobs)) = Some (Some k)"
    "find (\<lambda>k'. map_of (SC_scores (self_after (fit toy (init [2, 3, 6] 2 ''k-means'' ''rand'' 42) blobs))) k'
                   = Some s)
       (k_values (init [2, 3, 6] 2 ''k-means'' ''rand'' 42 :: (int list \<times> int list) StableClustering))
       = Some k"
    by blast
  with h e b t kv show ?thesis by metis
qed

text \<open>
  Claim C6. After \<^verbatim>\<open>fit\<close> completes, the entry of every candidate \<open>k\<close> is the mean
  (\<^verbatim>\<open>np.mean\<close>) of the agreement scores, under the configured metric, of all unordered
  pairs of the \<open>n_repetitions\<close> partitions of \<open>X\<close> at \<open>k\<close>, where partition \<open>i\<close> is the
  labelling the clustering produces with seed \<open>random_state + i\<close>; there are
  \<open>n (n - 1) / 2\<close> such pairs.
\<close>

theorem fit_score_is_mean_over_pairs:
  assumes "raised (fit env a X) = None" and "k \<in> set (k_values a)"
  shows "\<exists>parts.
           length parts = nat (n_repetitions a) \<and>
           (\<forall>i < length parts. \<exists>f.
              kmeans_fit env k (random_state a + int i) X = Inr f \<and> parts ! i = kmeans_labels env f) \<and>
           algorithm a = ''k-means'' \<and>
           (metric a = ''rand'' \<or> metric a = ''adjusted_rand'') \<and>
           map_of (SC_scores (self_after (fit env a X))) k =
             Some (np_mean env (map (\<lambda>(i, j). agreement env (metric a) (parts ! i) (parts ! j))
                                  (unordered_pairs (length parts)))) \<and>
           set (unordered_pairs (length parts)) = {(i, j). i < j \<and> j < length parts} \<and>
           distinct (unordered_pairs (length parts)) \<and>
           int (length (unordered_pairs (length parts))) =
             n_repetitions a * (n_repetitions a - 1) div 2"
proof -
  let ?n = "n_repetitions a"
  let ?parts = "candidate_parts env a X k"
  from assms(1) obtain kb where fc:
    "SC_scores (self_after (fit env a X)) =
       dict_updates (map (\<lambda>k. (k, candidate_score env a X k)) (k_values a)) (SC_scores a)"
    "2 \<le> ?n" "algorithm a = ''k-means''"
    "metric a = ''rand'' \<or> metric a = ''adjusted_rand''"
    "\<forall>k' \<in> set (k_values a). \<forall>i \<in> set (py_range 0 ?n).
       \<exists>f. kmeans_fit env k' (random_state a + i) X = Inr f"
    by (rule fit_completed)
  have len: "length ?parts = nat ?n"
    by (simp add: candidate_parts_def length_py_range)
  have nth: "\<exists>f. kmeans_fit env k (random_state a + int i) X = Inr f \<and>
                 ?parts ! i = kmeans_labels env f" if "i < length ?parts" for i
  proof -
    from that len have i: "i < nat ?n" by simp
    then have "int i \<in> set (py_range 0 ?n)" by (simp add: py_range_0)
    with fc(5) assms(2) obtain f where f: "kmeans_fit env k (random_state a + int i) X = Inr f"
      by blast
    with candidate_parts_nth [OF i f] show ?thesis by blast
  qed
  have entry: "map_of (SC_scores (self_after (fit env a X))) k =
                 Some (np_mean env (map (\<lambda>(i, j). agreement env (metric a) (?parts ! i) (?parts ! j))
                                      (unordered_pairs (length ?parts))))"
    using fc(1) assms(2)
    by (simp add: map_of_dict_updates_graph candidate_score_def mean_pairwise_def)
  have "int (nat ?n * (nat ?n - 1) div 2) = ?n * (?n - 1) div 2"
    using fc(2) by (simp add: nat_diff_distrib' zdiv_int nat_mult_distrib)
  then have count: "int (length (unordered_pairs (length ?parts))) = ?n * (?n - 1) div 2"
    by (simp add: length_unordered_pairs len)
  have dist: "distinct (unordered_pairs (length ?parts))"
    by (simp add: unordered_pairs_def distinct_product)
  show ?thesis
    using len nth fc(3,4) entry count dist set_unordered_pairs [of "length ?parts"]
    by (intro exI [of _ ?parts]) simp
qed

theorem fit_score_is_mean_over_pairs_witness:
  "raised (fit toy (init [2, 3] 3 ''k-means'' ''rand'' 42) blobs) = None \<and>
   2 \<in> set (k_values (init [2, 3] 3 ''k-means'' ''rand'' 42 :: (int list \<times> int list) StableClustering)) \<and>
   (\<exists>parts. length parts = 3 \<and>
      map_of (SC_scores (self_after (fit toy (init [2, 3] 3 ''k-means'' ''rand'' 42) blobs))) 2 =
        Some (np_mean toy (map (\<lambda>(i, j). agreement toy ''rand'' (parts ! i) (parts ! j))
                             (unordered_pairs (length parts)))))"
proof -
  have h1: "raised (fit toy (init [2, 3] 3 ''k-means'' ''rand'' 42) blobs) = None"
    by code_simp
  have h2: "2 \<in> set (k_values (init [2, 3] 3 ''k-means'' ''rand'' 42 :: (int list \<times> int list) StableClustering))"
    by (simp add: init_def)
  from fit_score_is_mean_over_pairs [OF h1 h2] h1 h2 show ?thesis
    by (auto simp: init_def)
qed

text \<open>
  Claim C7. When \<^verbatim>\<open>fit\<close> completes, its last clustering fit, after the
  \<open>n_repetitions\<close> fits of every candidate, is one more fit at the selected \<open>k\<close> on the
  dataset \<open>X\<close> it was given (with the seed of the last repetition), and the model this
  fit returns is what \<^verbatim>\<open>best_model_\<close> holds: one refit, one selected model.
\<close>

theorem fit_refits_selected_model:
  assumes "raised (fit env a X) = None"
  shows "\<exists>k f. SC_best_k (self_after (fit env a X)) = Some (Some k) \<and>
               kmeans_fit env k (random_state a + (n_repetitions a - 1)) X = Inr f \<and>
               SC_best_model (self_after (fit env a X)) =
                 Some \<lparr>n_clusters = k, km_random_state = random_state a + (n_repetitions a - 1),
                       fitted = Some f\<rparr> \<and>
               KMeans_fit env (KMeans_new k (random_state a + (n_repetitions a - 1))) X =
                 Inr \<lparr>n_clusters = k, km_random_state = random_state a + (n_repetitions a - 1),
                      fitted = Some f\<rparr> \<and>
               km_fits (fit env a X) =
                 evaluation_fits a (k_values a) @ [(k, random_state a + (n_repetitions a - 1))] \<and>
               length (km_fits (fit env a X)) = nat (n_repetitions a) * length (k_values a) + 1"
proof -
  from assms obtain k where k:
    "SC_best_k (self_after (fit env a X)) = Some (Some k)"
    "SC_best_model (self_after (fit env a X)) = Some (last_model env a X k)"
    "km_fits (fit env a X) =
       evaluation_fits a (k_values a) @ [(k, random_state a + (n_repetitions a - 1))]"
    "fitted (last_model env a X k) \<noteq> None"
    by (rule fit_completed)
  from k(4) obtain f where f: "kmeans_fit env k (random_state a + (n_repetitions a - 1)) X = Inr f"
    by (auto simp: last_model_def split: sum.splits)
  then have lm: "last_model env a X k =
      \<lparr>n_clusters = k, km_random_state = random_state a + (n_repetitions a - 1), fitted = Some f\<rparr>"
    by (simp add: last_model_def)
  have "length (evaluation_fits a (k_values a)) = nat (n_repetitions a) * length (k_values a)"
    by (induction "k_values a") (simp_all add: evaluation_fits_def length_py_range length_concat comp_def sum_list_triv)
  with k f lm show ?thesis
    by (intro exI [of _ k] exI [of _ f]) (simp add: KMeans_fit_def KMeans_new_def)
qed

theorem fit_refits_selected_model_witness:
  "raised (fit toy (init [2, 3] 2 ''k-means'' ''rand'' 42) blobs) = None \<and>
   km_fits (fit toy (init [2, 3] 2 ''k-means'' ''rand'' 42) blobs) =
     [(2, 42), (2, 43), (3, 42), (3, 43), (3, 43)] \<and>
   (\<exists>k f. SC_best_model (self_after (fit toy (init [2, 3] 2 ''k-means'' ''rand'' 42) blobs)) =
       Some \<lparr>n_clusters = k, km_random_state = 43, fitted = Some f\<rparr> \<and>
       kmeans_fit toy k 43 blobs = Inr f)"
proof -
  have h: "raised (fit toy (init [2, 3] 2 ''k-means'' ''rand'' 42) blobs) = None"
    by code_simp
  have t: "km_fits (fit toy (init [2, 3] 2 ''k-means'' ''rand'' 42) blobs) =
             [(2, 42), (2, 43), (3, 42), (3, 43), (3, 43)]"
    by code_simp
  from fit_refits_selected_model [OF h] h t show ?thesis
    by (auto simp: init_def)
qed

text \<open>
  Claim C8. \<^verbatim>\<open>fit\<close> is a function of the configuration and the dataset: two
  estimators with the same \<^verbatim>\<open>k_values\<close>, \<^verbatim>\<open>n_repetitions\<close>, \<^verbatim>\<open>algorithm\<close>,
  \<^verbatim>\<open>metric\<close> and \<^verbatim>\<open>random_state\<close>, fitted on the same \<open>X\<close>, end the same way
  after the same clustering fits; when they complete they select the same \<open>k\<close> and the
  same model and hold the same value for every candidate, and tables that were equal
  before are equal after.
\<close>

theorem fit_deterministic:
  assumes "same_config a b"
  shows "raised (fit env a X) = raised (fit env b X) \<and>
         km_fits (fit env a X) = km_fits (fit env b X) \<and>
         (raised (fit env a X) = None \<longrightarrow>
            SC_best_k (self_after (fit env a X)) = SC_best_k (self_after (fit env b X)) \<and>
            SC_best_model (self_after (fit env a X)) = SC_best_model (self_after (fit env b X)) \<and>
            (\<forall>k \<in> set (k_values a).
               map_of (SC_scores (self_after (fit env a X))) k =
               map_of (SC_scores (self_after (fit env b X))) k)) \<and>
         (SC_scores a = SC_scores b \<longrightarrow>
            SC_scores (self_after (fit env a X)) = SC_scores (self_after (fit env b X)))"
proof -
  have kv: "k_values b = k_values a" and n: "n_repetitions b = n_repetitions a"
    and rs: "random_state b = random_state a"
    using assms by (simp_all add: same_config_def)
  have lm: "last_model env b X k = last_model env a X k" for k
    using assms by (simp add: last_model_def same_config_def)
  obtain err a' loc' tr' where c: "candidates env X (k_values a) a init_locals [] = (err, a', loc', tr')"
    by (metis prod.collapse)
  from candidates_state [OF c] assms obtain ups where ups:
    "a' = a\<lparr>SC_scores := dict_updates ups (SC_scores a)\<rparr>"
    "candidates env X (k_values a) b init_locals [] =
       (err, b\<lparr>SC_scores := dict_updates ups (SC_scores b)\<rparr>, loc', tr')"
    "err = None \<longrightarrow> ups = map (\<lambda>k. (k, candidate_score env a X k)) (k_values a)"
    by blast
  let ?b' = "b\<lparr>SC_scores := dict_updates ups (SC_scores b)\<rparr>"
  have cb: "candidates env X (k_values b) b init_locals [] = (err, ?b', loc', tr')"
    using ups(2) kv by simp
  show ?thesis
  proof (cases rule: fit_outcome [of env X a])
    case (loop_error e a1 loc1 tr1)
    with c have "err = Some e" "a1 = a'" "tr1 = tr'" by simp_all
    with loop_error(2) fit_loop_error [of env X b e ?b' loc' tr'] cb ups(1)
    show ?thesis by simp
  next
    case (no_model a1 loc1 tr1)
    with c have "err = None" "a1 = a'" "loc1 = loc'" "tr1 = tr'" by simp_all
    with no_model fit_no_model [of env X b ?b' loc' tr'] cb ups(1)
    show ?thesis by simp
  next
    case (selected a1 loc1 tr1 k)
    with c have eq: "err = None" "a1 = a'" "loc1 = loc'" "tr1 = tr'" by simp_all
    from candidates_select [OF selected(1)] selected(3) have
      bm: "best_model loc1 = Some (last_model env a X k)"
      by (auto simp: init_locals_def)
    have fb: "fit env b X =
       \<lparr>raised = None,
        self_after = ?b'\<lparr>SC_best_k := Some (best_k loc'), SC_best_model := Some (last_model env b X k)\<rparr>,
        km_fits = tr' @ [(k, random_state b + (n_repetitions b - 1))]\<rparr>"
      using cb eq bm selected(9) by (intro fit_refit) (simp_all add: lm)
    have ups_all: "ups = map (\<lambda>k. (k, candidate_score env a X k)) (k_values a)"
      using eq(1) ups(3) by simp
    have same: "map_of (dict_updates ups (SC_scores a)) k' = map_of (dict_updates ups (SC_scores b)) k'"
      if "k' \<in> set (k_values a)" for k'
      using that ups_all by (simp add: map_of_dict_updates_graph)
    have fa: "fit env a X =
       \<lparr>raised = None,
        self_after = a'\<lparr>SC_best_k := Some (Some k), SC_best_model := Some (last_model env a X k)\<rparr>,
        km_fits = tr' @ [(k, random_state a + (n_repetitions a - 1))]\<rparr>"
      using selected(10) eq by simp
    have bk: "best_k loc' = Some k" using selected(3) eq by simp
    show ?thesis
      unfolding fa fb using same ups(1) n rs lm bk by simp
  qed
qed

theorem fit_deterministic_witness:
  "same_config (init [2, 3] 2 ''k-means'' ''rand'' 42 :: (int list \<times> int list) StableClustering)
     (self_after (fit toy (init [2, 3] 2 ''k-means'' ''rand'' 42) blobs)) \<and>
   raised (fit toy (init [2, 3] 2 ''k-means'' ''rand'' 42) blobs) = None \<and>
   raised (fit toy (self_after (fit toy (init [2, 3] 2 ''k-means'' ''rand'' 42) blobs)) blobs) = None \<and>
   SC_best_k (self_after (fit toy (self_after (fit toy (init [2, 3] 2 ''k-means'' ''rand'' 42) blobs)) blobs))
     = Some (Some 3)"
proof -
  have h: "same_config (init [2, 3] 2 ''k-means'' ''rand'' 42 :: (int list \<times> int list) StableClustering)
             (self_after (fit toy (init [2, 3] 2 ''k-means'' ''rand'' 42) blobs))"
    by code_simp
  have r: "raised (fit toy (init [2, 3] 2 ''k-means'' ''rand'' 42) blobs) = None"
    by code_simp
  have b: "SC_best_k (self_after (fit toy (init [2, 3] 2 ''k-means'' ''rand'' 42) blobs)) = Some (Some 3)"
    by code_simp
  from fit_deterministic [OF h, of toy blobs] h r b show ?thesis by simp
qed

text \<open>
  Claim C9. The score table is created by the constructor (\<open>init\<close> sets it to the empty
  dictionary) and \<^verbatim>\<open>fit\<close> only ever writes entries into it: when \<^verbatim>\<open>fit\<close> is called again after \<^verbatim>\<open>k_values\<close> has been replaced,
  every entry the table held after the earlier call, under a key that is not among the new
  candidates, is still there after the later call, whether that call completes or raises.
\<close>

theorem fit_keeps_earlier_entries:
  assumes "map_of (SC_scores (self_after (fit env a X))) k = Some v"
    and "k \<notin> set ks"
  shows "map_of (SC_scores (self_after (fit env ((self_after (fit env a X))\<lparr>k_values := ks\<rparr>) X'))) k
           = Some v"
proof -
  let ?b = "(self_after (fit env a X))\<lparr>k_values := ks\<rparr>"
  have "k \<notin> set (k_values ?b)" using assms(2) by simp
  from fit_frame [OF this, of env X'] assms(1) show ?thesis
    by simp
qed

theorem fit_keeps_earlier_entries_witness:
  "map_of (SC_scores (self_after (fit toy (init [2, 3] 2 ''k-means'' ''rand'' 42) blobs))) 2
     = Some (Finite (2 / 3)) \<and>
   2 \<notin> set [3 :: int] \<and>
   map_of (SC_scores (self_after
     (fit toy ((self_after (fit toy (init [2, 3] 2 ''k-means'' ''rand'' 42) blobs))\<lparr>k_values := [3]\<rparr>)
        blobs))) 2 = Some (Finite (2 / 3))"
proof -
  have h1: "map_of (SC_scores (self_after (fit toy (init [2, 3] 2 ''k-means'' ''rand'' 42) blobs))) 2
              = Some (Finite (2 / 3))"
    by code_simp
  have h2: "2 \<notin> set [3 :: int]" by simp
  from fit_keeps_earlier_entries [OF h1 h2, of blobs] h1 h2 show ?thesis by simp
qed

text \<open>
  Claim C10. With \<^verbatim>\<open>n_repetitions = 0\<close> and at least one candidate, \<^verbatim>\<open>fit\<close> raises
  neither the algorithm error nor the metric error, whatever the two names are: no
  repetition and no pair is ever visited, no clustering fit is executed, the mean of no
  scores (not-a-number) is recorded for every candidate, and \<^verbatim>\<open>fit\<close> fails at the
  final refit with \<^verbatim>\<open>AttributeError\<close>, no model having been selected.
\<close>

theorem fit_zero_repetitions:
  fixes a :: "'f StableClustering"
  assumes "n_repetitions a = 0" and "k_values a \<noteq> []"
  shows "raised (fit env a X) \<noteq> Some InvalidAlgorithm \<and>
         raised (fit env a X) \<noteq> Some InvalidMetric \<and>
         raised (fit env a X) = Some AttributeError \<and>
         km_fits (fit env a X) = [] \<and>
         (\<forall>k \<in> set (k_values a). map_of (SC_scores (self_after (fit env a X))) k = Some NaN)"
proof -
  have c: "candidates env X (k_values a) a init_locals [] =
             (None, a\<lparr>SC_scores := dict_updates (map (\<lambda>k. (k, NaN)) (k_values a)) (SC_scores a)\<rparr>,
              init_locals, [])"
    using assms(1) by (intro candidates_no_repetitions) simp
  have "best_model (init_locals :: 'f locals) = None"
    by (simp add: init_locals_def)
  from fit_no_model [OF c this] show ?thesis
    by (simp add: map_of_dict_updates_graph)
qed

theorem fit_zero_repetitions_witness:
  "n_repetitions (init [2, 3] 0 ''bogus'' ''bogus'' 42 :: (int list \<times> int list) StableClustering) = 0 \<and>
   k_values (init [2, 3] 0 ''bogus'' ''bogus'' 42 :: (int list \<times> int list) StableClustering) \<noteq> [] \<and>
   raised (fit toy (init [2, 3] 0 ''bogus'' ''bogus'' 42) blobs) = Some AttributeError \<and>
   SC_scores (self_after (fit toy (init [2, 3] 0 ''bogus'' ''bogus'' 42) blobs)) = [(2, NaN), (3, NaN)]"
proof -
  have h1: "n_repetitions (init [2, 3] 0 ''bogus'' ''bogus'' 42 :: (int list \<times> int list) StableClustering) = 0"
    by (simp add: init_def)
  have h2: "k_values (init [2, 3] 0 ''bogus'' ''bogus'' 42 :: (int list \<times> int list) StableClustering) \<noteq> []"
    by (simp add: init_def)
  have "SC_scores (self_after (fit toy (init [2, 3] 0 ''bogus'' ''bogus'' 42) blobs)) = [(2, NaN), (3, NaN)]"
    by code_simp
  with fit_zero_repetitions [OF h1 h2, of toy blobs] h1 h2 show ?thesis by simp
qed

end
